theory Spec2Isabelle
  imports Main
begin

section \<open>JavaScript values\<close>

text \<open>
  The values that a resource, a rule parameter object or a configuration can hold.
  A string is a list of characters, one per code unit. A number is an integer; only
  whether it is zero is ever looked at. An array is dense. An object is the list of its
  own enumerable properties in the order in which \<^verbatim>\<open>Object.entries\<close>, \<^verbatim>\<open>Object.values\<close>
  and \<^verbatim>\<open>for ... in\<close> visit them: the order in which the keys were added, save that
  JavaScript visits keys that are array indices first.
\<close>

datatype jsval =
    JUndefined
  | JNull
  | JBool bool
  | JNum int
  | JStr string
  | JArr "jsval list"
  | JObj "(string \<times> jsval) list"

text \<open>\<^verbatim>\<open>"string" === typeof v\<close>\<close>

fun typeof_string :: "jsval \<Rightarrow> bool" where
  "typeof_string (JStr s) = True"
| "typeof_string v = False"

text \<open>
  \<^verbatim>\<open>xs.every((x) => "string" === typeof x)\<close> on the elements of an array, together with
  the cast of the checked array to \<^verbatim>\<open>string[]\<close>: \<open>None\<close> when the check fails.
\<close>

fun every_string :: "jsval list \<Rightarrow> string list option" where
  "every_string [] = Some []"
| "every_string (JStr s # vs) = map_option ((#) s) (every_string vs)"
| "every_string (v # vs) = None"

text \<open>\<^verbatim>\<open>Array.isArray(v) && v.every((x) => "string" === typeof x)\<close>\<close>

definition string_array :: "jsval \<Rightarrow> string list option" where
  "string_array v = (case v of JArr xs \<Rightarrow> every_string xs | _ \<Rightarrow> None)"

text \<open>Truthiness, as \<^verbatim>\<open>filter(result => result)\<close> and \<^verbatim>\<open>||\<close> test it.\<close>

fun truthy :: "jsval \<Rightarrow> bool" where
  "truthy JUndefined = False"
| "truthy JNull = False"
| "truthy (JBool b) = b"
| "truthy (JNum n) = (n \<noteq> 0)"
| "truthy (JStr s) = (s \<noteq> [])"
| "truthy (JArr xs) = True"
| "truthy (JObj kvs) = True"

text \<open>The decimal name of an array index, the property key under which an array holds
  its element.\<close>

definition digit :: "nat \<Rightarrow> char" where
  "digit d = char_of (of_char CHR ''0'' + d)"

fun index_key :: "nat \<Rightarrow> string" where
  "index_key n = (if n < 10 then [digit n] else index_key (n div 10) @ [digit (n mod 10)])"

text \<open>
  \<^verbatim>\<open>v instanceof Object\<close> followed by \<^verbatim>\<open>Object.entries(v)\<close>: \<open>None\<close> when \<open>v\<close> is a
  primitive. An array is an object whose keys are its indices.
\<close>

definition object_entries :: "jsval \<Rightarrow> (string \<times> jsval) list option" where
  "object_entries v =
     (case v of
        JObj kvs \<Rightarrow> Some kvs
      | JArr xs \<Rightarrow> Some (zip (map index_key [0..<length xs]) xs)
      | _ \<Rightarrow> None)"

section \<open>Strings\<close>

text \<open>\<^verbatim>\<open>s.includes(t)\<close>: \<open>t\<close> occurs in \<open>s\<close> at some position.\<close>

fun occurs_at_start :: "string \<Rightarrow> string \<Rightarrow> bool" where
  "occurs_at_start s [] = True"
| "occurs_at_start [] (c # t) = False"
| "occurs_at_start (a # s) (c # t) = (a = c \<and> occurs_at_start s t)"

fun includes_str :: "string \<Rightarrow> string \<Rightarrow> bool" where
  "includes_str [] t = (t = [])"
| "includes_str (a # s) t = (occurs_at_start (a # s) t \<or> includes_str s t)"

text \<open>The substring relation in the words of the specification.\<close>

definition is_substring :: "string \<Rightarrow> string \<Rightarrow> bool" where
  "is_substring x s = (\<exists>p q. s = p @ x @ q)"

text \<open>\<^verbatim>\<open>text.split(/[\r\n]+/)\<close>: the pieces between maximal runs of line breaks.\<close>

definition is_line_break :: "char \<Rightarrow> bool" where
  "is_line_break c = (c = CHR 0x0D \<or> c = CHR 0x0A)"

function split_line_breaks :: "string \<Rightarrow> string \<Rightarrow> string list" where
  "split_line_breaks cur [] = [cur]"
| "split_line_breaks cur (c # cs) =
     (if is_line_break c then cur # split_line_breaks [] (dropWhile is_line_break cs)
      else split_line_breaks (cur @ [c]) cs)"
  by pat_completeness auto
termination
  by (relation "measure (\<lambda>(cur, cs). length cs)")
     (auto simp: length_dropWhile_le less_Suc_eq_le)

text \<open>\<^verbatim>\<open>line.trim()\<close>, with the white space and line terminators that fit in a character.\<close>

definition is_white_space :: "char \<Rightarrow> bool" where
  "is_white_space c =
     (c \<in> set [CHR 0x09, CHR 0x0A, CHR 0x0B, CHR 0x0C, CHR 0x0D, CHR 0x20, CHR 0xA0])"

definition trim :: "string \<Rightarrow> string" where
  "trim s = rev (dropWhile is_white_space (rev (dropWhile is_white_space s)))"

text \<open>\<^verbatim>\<open>[...new Set(xs)]\<close>: each value once, in the order of first insertion.\<close>

definition Set_add :: "'a list \<Rightarrow> 'a \<Rightarrow> 'a list" where
  "Set_add acc x = (if x \<in> set acc then acc else acc @ [x])"

definition new_Set :: "'a list \<Rightarrow> 'a list" where
  "new_Set xs = foldl Set_add [] xs"

section \<open>ResourceDNTTerms\<close>

record dnt_rule =
  name :: string
  description :: string
  link :: string
  ruleType :: string
  dntTerms :: "string list"

text \<open>
  The errors that the constructors throw, in the order of the source:
  \<^item> \<^verbatim>\<open>DNT terms provided in an unexpected format; expected string[]\<close>
  \<^item> \<^verbatim>\<open>"..." is not a valid DNT terms file type\<close>, with the value of the type
  \<^item> an error of \<^verbatim>\<open>fs.readFileSync\<close>
  \<^item> \<^verbatim>\<open>Failed to parse DNT terms file as JSON\<close>
  \<^item> \<^verbatim>\<open>DNT terms JSON file has unexpected content; expected string[]\<close>
  \<^item> \<^verbatim>\<open>Insufficient params given to Project constructor\<close>
  \<^item> an error of the constructor of \<^verbatim>\<open>FileType\<close>
\<close>

datatype error =
    Terms_unexpected_format
  | Invalid_terms_file_type jsval
  | Read_failed
  | JSON_parse_failed
  | JSON_unexpected_content
  | Insufficient_params
  | FileType_failed

text \<open>
  The two library functions that the rule's constructor calls are parameters:
  \<open>readFileSync path\<close> is the text of the file (\<open>None\<close> when \<^verbatim>\<open>fs.readFileSync\<close> throws)
  and \<open>JSON_parse text\<close> is the parsed value (\<open>None\<close> when \<^verbatim>\<open>JSON.parse\<close> throws).
\<close>

definition parseTermsFromJsonFile ::
  "(jsval \<Rightarrow> string option) \<Rightarrow> (string \<Rightarrow> jsval option) \<Rightarrow> jsval \<Rightarrow> error + string list" where
  "parseTermsFromJsonFile readFileSync JSON_parse path =
     (case readFileSync path of
        None \<Rightarrow> Inl Read_failed
      | Some text \<Rightarrow>
          (case JSON_parse text of
             None \<Rightarrow> Inl JSON_parse_failed
           | Some content \<Rightarrow>
               (case string_array content of
                  None \<Rightarrow> Inl JSON_unexpected_content
                | Some terms \<Rightarrow> Inr terms)))"

definition parseTermsFromTxtFile ::
  "(jsval \<Rightarrow> string option) \<Rightarrow> jsval \<Rightarrow> error + string list" where
  "parseTermsFromTxtFile readFileSync path =
     (case readFileSync path of
        None \<Rightarrow> Inl Read_failed
      | Some text \<Rightarrow>
          Inr (filter (\<lambda>line. length line > 0) (map trim (split_line_breaks [] text))))"

text \<open>\<^verbatim>\<open>params.k\<close>: the value of property \<open>k\<close>, \<^verbatim>\<open>undefined\<close> when there is none.\<close>

definition get_prop :: "(string \<times> jsval) list \<Rightarrow> string \<Rightarrow> jsval" where
  "get_prop obj k = (case map_of obj k of Some v \<Rightarrow> v | None \<Rightarrow> JUndefined)"

text \<open>The terms that the constructor reads from its parameters, before they are
  filtered and deduplicated.\<close>

definition constructor_terms ::
  "(jsval \<Rightarrow> string option) \<Rightarrow> (string \<Rightarrow> jsval option) \<Rightarrow> (string \<times> jsval) list
     \<Rightarrow> error + string list" where
  "constructor_terms readFileSync JSON_parse params =
     (if ''terms'' \<in> fst ` set params then
        (case string_array (get_prop params ''terms'') of
           None \<Rightarrow> Inl Terms_unexpected_format
         | Some terms \<Rightarrow> Inr terms)
      else if ''termsFilePath'' \<in> fst ` set params then
        (if get_prop params ''termsFileType'' = JStr ''json'' then
           parseTermsFromJsonFile readFileSync JSON_parse (get_prop params ''termsFilePath'')
         else if get_prop params ''termsFileType'' = JStr ''txt'' then
           parseTermsFromTxtFile readFileSync (get_prop params ''termsFilePath'')
         else Inl (Invalid_terms_file_type (get_prop params ''termsFileType'')))
      else Inr [])"

definition ResourceDNTTerms ::
  "(jsval \<Rightarrow> string option) \<Rightarrow> (string \<Rightarrow> jsval option) \<Rightarrow> (string \<times> jsval) list
     \<Rightarrow> error + dnt_rule" where
  "ResourceDNTTerms readFileSync JSON_parse params =
     (case constructor_terms readFileSync JSON_parse params of
        Inl e \<Rightarrow> Inl e
      | Inr terms \<Rightarrow>
          Inr \<lparr> name = ''resource-dnt-terms'',
                description = ''Ensure that Do Not Translate terms have not been translated.'',
                link = ''https://github.com/ilib-js/i18nlint/blob/main/docs/resource-dnt-terms.md'',
                ruleType = ''resource'',
                dntTerms = new_Set (filter (\<lambda>t. length t > 0) terms) \<rparr>)"

subsection \<open>Matching\<close>

text \<open>
  A partial result is the object that the matching methods push. A resource is what
  \<^verbatim>\<open>match\<close> reads of it through its four getters. The class \<^verbatim>\<open>Result\<close> belongs to a
  library; a result is the record of the properties it is constructed from, the property
  \<^verbatim>\<open>rule: this\<close> being the rule instance.
\<close>

record partial_result =
  source :: string
  highlight :: string

record resource =
  getKey :: string
  getType :: string
  getSource :: jsval
  getTarget :: jsval

record result =
  result_id :: string
  result_rule :: dnt_rule
  result_pathName :: string
  result_locale :: string
  result_severity :: string
  result_description :: string
  result_source :: string
  result_highlight :: string

definition missing_term :: "string \<Rightarrow> string" where
  "missing_term term = ''Missing term: <e0>'' @ term @ ''</e0>''"

text \<open>One round of the loop over the terms in \<^verbatim>\<open>_matchString\<close>; \<open>acc\<close> is \<^verbatim>\<open>partialResults\<close>.\<close>

definition DNT_matchString_step ::
  "string \<Rightarrow> string \<Rightarrow> partial_result list \<Rightarrow> string \<Rightarrow> partial_result list" where
  "DNT_matchString_step src tgt acc term =
     (if includes_str src term \<and> \<not> includes_str tgt term
      then acc @ [\<lparr> source = src, highlight = missing_term term \<rparr>]
      else acc)"

definition DNT_matchString :: "string list \<Rightarrow> string \<Rightarrow> string \<Rightarrow> partial_result list" where
  "DNT_matchString terms src tgt = foldl (DNT_matchString_step src tgt) [] terms"

text \<open>\<^verbatim>\<open>target[idx] ?? ""\<close>\<close>

definition target_item :: "string list \<Rightarrow> nat \<Rightarrow> string" where
  "target_item tgt idx = (if idx < length tgt then tgt ! idx else [])"

text \<open>One call of the \<^verbatim>\<open>forEach\<close> callback in \<^verbatim>\<open>_matchArray\<close>.\<close>

definition DNT_matchArray_step ::
  "string list \<Rightarrow> string list \<Rightarrow> partial_result list \<Rightarrow> string \<times> nat \<Rightarrow> partial_result list" where
  "DNT_matchArray_step terms tgt acc item =
     (case item of (sourceItem, idx) \<Rightarrow>
        acc @ DNT_matchString terms sourceItem (target_item tgt idx))"

definition DNT_matchArray :: "string list \<Rightarrow> string list \<Rightarrow> string list \<Rightarrow> partial_result list" where
  "DNT_matchArray terms src tgt =
     foldl (DNT_matchArray_step terms tgt) [] (zip src [0..<length src])"

text \<open>One round of the loop over the terms in \<^verbatim>\<open>_matchPlural\<close>; the arguments are
  \<^verbatim>\<open>Object.values(source)\<close> and \<^verbatim>\<open>Object.values(target)\<close>.\<close>

definition DNT_matchPlural_step ::
  "string list \<Rightarrow> string list \<Rightarrow> partial_result list \<Rightarrow> string \<Rightarrow> partial_result list" where
  "DNT_matchPlural_step svals tvals acc term =
     (case find (\<lambda>sourceItem. includes_str sourceItem term) svals of
        None \<Rightarrow> acc
      | Some matchingSourceItem \<Rightarrow>
          if \<not> list_all (\<lambda>targetItem. includes_str targetItem term) tvals
          then acc @ [\<lparr> source = matchingSourceItem, highlight = missing_term term \<rparr>]
          else acc)"

definition DNT_matchPlural ::
  "string list \<Rightarrow> (string \<times> string) list \<Rightarrow> (string \<times> string) list \<Rightarrow> partial_result list" where
  "DNT_matchPlural terms src tgt =
     foldl (DNT_matchPlural_step (map snd src) (map snd tgt)) [] terms"

text \<open>
  The check of the entries of a plural resource, with the cast of the checked entries:
  every key is one of \<^verbatim>\<open>ResourcePlural.validPluralCategories\<close> (the parameter \<open>cats\<close>; the
  table is declared outside this repository) and every value is a string.
\<close>

fun every_category :: "string list \<Rightarrow> (string \<times> jsval) list \<Rightarrow> (string \<times> string) list option" where
  "every_category cats [] = Some []"
| "every_category cats ((k, JStr s) # kvs) =
     (if k \<in> set cats then map_option ((#) (k, s)) (every_category cats kvs) else None)"
| "every_category cats (kv # kvs) = None"

text \<open>\<^verbatim>\<open>_matchResource\<close>; \<open>None\<close> is \<^verbatim>\<open>undefined\<close>.\<close>

definition DNT_matchResource :: "string list \<Rightarrow> dnt_rule \<Rightarrow> resource \<Rightarrow> partial_result list option" where
  "DNT_matchResource cats rule r =
     (if getType r = ''string'' then
        (case (getSource r, getTarget r) of
           (JStr src, JStr tgt) \<Rightarrow> Some (DNT_matchString (dntTerms rule) src tgt)
         | _ \<Rightarrow> None)
      else if getType r = ''array'' then
        (case (string_array (getSource r), string_array (getTarget r)) of
           (Some src, Some tgt) \<Rightarrow> Some (DNT_matchArray (dntTerms rule) src tgt)
         | _ \<Rightarrow> None)
      else if getType r = ''plural'' then
        (case (object_entries (getSource r), object_entries (getTarget r)) of
           (Some se, Some te) \<Rightarrow>
             (case (every_category cats se, every_category cats te) of
                (Some src, Some tgt) \<Rightarrow> Some (DNT_matchPlural (dntTerms rule) src tgt)
              | _ \<Rightarrow> None)
         | _ \<Rightarrow> None)
      else None)"

text \<open>\<^verbatim>\<open>new Result({ ...resultProps, ...partialResult })\<close>\<close>

definition new_Result ::
  "dnt_rule \<Rightarrow> resource \<Rightarrow> string \<Rightarrow> string \<Rightarrow> partial_result \<Rightarrow> result" where
  "new_Result rule r file locale partialResult =
     \<lparr> result_id = getKey r,
       result_rule = rule,
       result_pathName = file,
       result_locale = locale,
       result_severity = ''error'',
       result_description = ''A DNT term is missing in target string.'',
       result_source = source partialResult,
       result_highlight = highlight partialResult \<rparr>"

text \<open>\<^verbatim>\<open>match({ resource, file, locale })\<close>; \<open>None\<close> is \<^verbatim>\<open>undefined\<close>.\<close>

definition DNT_match :: "string list \<Rightarrow> dnt_rule \<Rightarrow> resource \<Rightarrow> string \<Rightarrow> string \<Rightarrow> result list option" where
  "DNT_match cats rule r file locale =
     map_option (map (new_Result rule r file locale)) (DNT_matchResource cats rule r)"

section \<open>DeclarativeResourceRule\<close>

text \<open>\<^verbatim>\<open>results.concat(v)\<close>: the elements of an array, any other value as it is.\<close>

definition concat_js :: "jsval list \<Rightarrow> jsval \<Rightarrow> jsval list" where
  "concat_js results v = (case v of JArr xs \<Rightarrow> results @ xs | _ \<Rightarrow> results @ [v])"

text \<open>
  \<^verbatim>\<open>matchString({source, target, file, resource})\<close>. The abstract method \<^verbatim>\<open>checkString\<close> is
  a parameter, \<open>re\<close> is the list of compiled patterns \<^verbatim>\<open>this.re\<close>, and \<open>None\<close> is
  \<^verbatim>\<open>undefined\<close>.
\<close>

definition matchString ::
  "('re \<Rightarrow> 's \<Rightarrow> 't \<Rightarrow> 'f \<Rightarrow> 'r \<Rightarrow> jsval) \<Rightarrow> 're list \<Rightarrow> 's \<Rightarrow> 't \<Rightarrow> 'f \<Rightarrow> 'r
     \<Rightarrow> jsval list option" where
  "matchString checkString re src tgt file res =
     (let results = foldl (\<lambda>results r. concat_js results (checkString r src tgt file res)) [] re;
          results = filter truthy results
      in if length results \<noteq> 0 then Some results else None)"

text \<open>The earlier version, \<^verbatim>\<open>matchString(locale, source, target, file, resource)\<close>.\<close>

definition matchString_earlier ::
  "('re \<Rightarrow> 's \<Rightarrow> 't \<Rightarrow> 'f \<Rightarrow> 'r \<Rightarrow> jsval) \<Rightarrow> 're list \<Rightarrow> 'l \<Rightarrow> 's \<Rightarrow> 't \<Rightarrow> 'f \<Rightarrow> 'r
     \<Rightarrow> jsval list option" where
  "matchString_earlier checkString re locale src tgt file res =
     (let results = foldl (\<lambda>results r. concat_js results (checkString r src tgt file res)) [] re;
          results = filter truthy results
      in if length results \<noteq> 0 then Some results else None)"

section \<open>Project\<close>

text \<open>
  The class \<^verbatim>\<open>FileType\<close> is declared outside the files at hand, so its constructor is a
  parameter \<open>new_FileType\<close>, from the options object to the file type or an error. The
  options object is a map from property names to values; its entry \<^verbatim>\<open>project: this\<close>, the
  project under construction, is left out.
\<close>

type_synonym ft_options = "string \<rightharpoonup> jsval"

definition xliffFileTypeDefinition :: ft_options where
  "xliffFileTypeDefinition =
     [''name'' \<mapsto> JStr ''xliff'',
      ''glob'' \<mapsto> JStr ''**/*.xliff'',
      ''ruleset'' \<mapsto> JArr [JStr ''resource-check-all'']]"

definition unknownFileTypeDefinition :: ft_options where
  "unknownFileTypeDefinition =
     [''name'' \<mapsto> JStr ''unknown'',
      ''glob'' \<mapsto> JStr ''**/*'']"

text \<open>The own enumerable properties that \<^verbatim>\<open>{...v}\<close> copies.\<close>

definition spread :: "jsval \<Rightarrow> (string \<times> jsval) list" where
  "spread v =
     (case v of
        JObj kvs \<Rightarrow> kvs
      | JArr xs \<Rightarrow> zip (map index_key [0..<length xs]) xs
      | JStr s \<Rightarrow> zip (map index_key [0..<length s]) (map (\<lambda>c. JStr [c]) s)
      | _ \<Rightarrow> [])"

text \<open>\<^verbatim>\<open>typeof(v) === 'object'\<close>\<close>

fun typeof_object :: "jsval \<Rightarrow> bool" where
  "typeof_object JNull = True"
| "typeof_object (JArr xs) = True"
| "typeof_object (JObj kvs) = True"
| "typeof_object v = False"

subsection \<open>The order of a loop over the keys of an object\<close>

text \<open>
  A key is an array index when it is the decimal name of a number below \<open>2\<^sup>3\<^sup>2 - 1\<close>.
  \<^verbatim>\<open>for (let k in obj)\<close> visits the keys of \<open>obj\<close> that are array indices first, in
  ascending order of their numbers, and then the other keys in the order in which they
  were declared.
\<close>

definition decimal_value :: "string \<Rightarrow> nat" where
  "decimal_value k = foldl (\<lambda>n c. 10 * n + (of_char c - of_char CHR ''0'')) 0 k"

definition array_index :: "string \<Rightarrow> nat option" where
  "array_index k =
     (if index_key (decimal_value k) = k \<and> decimal_value k < 4294967295
      then Some (decimal_value k) else None)"

definition is_array_index :: "string \<times> 'a \<Rightarrow> bool" where
  "is_array_index entry = (array_index (fst entry) \<noteq> None)"

definition for_in_order :: "(string \<times> 'a) list \<Rightarrow> (string \<times> 'a) list" where
  "for_in_order entries =
     sort_key (\<lambda>entry. decimal_value (fst entry)) (filter is_array_index entries)
     @ filter (\<lambda>entry. \<not> is_array_index entry) entries"

subsection \<open>The table of file types\<close>

text \<open>
  \<^verbatim>\<open>this.filetypes\<close> is an object made by a literal, so next to its own properties, the
  file types, it has a prototype. The prototype is \<^verbatim>\<open>Object.prototype\<close> (\<open>proto = None\<close>)
  until a file type is assigned to the key \<^verbatim>\<open>__proto__\<close>: that assignment sets the
  prototype to the file type and makes no own property.
\<close>

record 'ft table =
  own :: "string \<rightharpoonup> 'ft"
  proto :: "'ft option"

text \<open>The names of the properties of \<^verbatim>\<open>Object.prototype\<close>; the value of each is truthy.\<close>

definition Object_prototype_members :: "string list" where
  "Object_prototype_members =
     [''constructor'', ''__defineGetter__'', ''__defineSetter__'', ''hasOwnProperty'',
      ''__lookupGetter__'', ''__lookupSetter__'', ''isPrototypeOf'', ''propertyIsEnumerable'',
      ''toString'', ''valueOf'', ''__proto__'', ''toLocaleString'']"

text \<open>
  What \<^verbatim>\<open>this.filetypes[k]\<close> evaluates to: a file type, another truthy value that the
  table inherits from its prototype, or \<^verbatim>\<open>undefined\<close> (or an inherited falsy value, which
  \<^verbatim>\<open>||\<close> treats alike).
\<close>

datatype 'ft found = File_type 'ft | Inherited | Not_found

text \<open>
  \<^verbatim>\<open>this.filetypes[k]\<close>. Where the prototype is a file type, whether it answers \<open>k\<close> with a
  truthy value depends on the class \<^verbatim>\<open>FileType\<close> and is the parameter \<open>FileType_member\<close>;
  the key \<^verbatim>\<open>__proto__\<close> is answered with the prototype itself.
\<close>

definition table_get :: "('ft \<Rightarrow> string \<Rightarrow> bool) \<Rightarrow> 'ft table \<Rightarrow> string \<Rightarrow> 'ft found" where
  "table_get FileType_member t k =
     (case own t k of
        Some ft \<Rightarrow> File_type ft
      | None \<Rightarrow>
          (case proto t of
             None \<Rightarrow> if k \<in> set Object_prototype_members then Inherited else Not_found
           | Some v \<Rightarrow>
               if k = ''__proto__'' then File_type v
               else if FileType_member v k then Inherited else Not_found))"

text \<open>
  \<^verbatim>\<open>this.filetypes[k] = ft\<close>, a file type having no property that intercepts or refuses an
  assignment.
\<close>

definition table_set :: "'ft table \<Rightarrow> string \<Rightarrow> 'ft \<Rightarrow> 'ft table" where
  "table_set t k ft =
     (if k = ''__proto__'' then t\<lparr> proto := Some ft \<rparr> else t\<lparr> own := (own t)(k \<mapsto> ft) \<rparr>)"

subsection \<open>The constructor\<close>

text \<open>
  Of the configuration, the constructor's file types depend on \<^verbatim>\<open>filetypes\<close> and \<^verbatim>\<open>paths\<close>,
  each an object or absent (\<open>None\<close>); the entries of each are listed in the order of their
  declaration. Of the options it tests \<^verbatim>\<open>pluginManager\<close>. Of the project, \<open>filetypes\<close> is
  the table \<^verbatim>\<open>this.filetypes\<close> and \<open>mappings\<close> is \<^verbatim>\<open>this.mappings\<close>, \<^verbatim>\<open>undefined\<close> (\<open>None\<close>)
  unless the configuration has \<^verbatim>\<open>paths\<close>.
\<close>

record config =
  config_filetypes :: "(string \<times> jsval) list option"
  config_paths :: "(string \<times> jsval) list option"

record 'pm options =
  pluginManager :: "'pm option"

record 'ft project =
  root :: string
  filetypes :: "'ft table"
  mappings :: "(string \<times> jsval) list option"

text \<open>
  The body of the loop \<^verbatim>\<open>for (let ft in this.config.filetypes)\<close>, run on the entries
  \<open>(ft, this.config.filetypes[ft])\<close> in the order of the loop.
\<close>

fun add_filetypes ::
  "(ft_options \<Rightarrow> error + 'ft) \<Rightarrow> 'ft table \<Rightarrow> (string \<times> jsval) list \<Rightarrow> error + 'ft table" where
  "add_filetypes new_FileType fts [] = Inr fts"
| "add_filetypes new_FileType fts ((ft, d) # rest) =
     (case new_FileType ([''name'' \<mapsto> JStr ft] ++ map_of (spread d)) of
        Inl e \<Rightarrow> Inl e
      | Inr t \<Rightarrow> add_filetypes new_FileType (table_set fts ft t) rest)"

text \<open>
  The body of the loop \<^verbatim>\<open>for (let glob in this.mappings)\<close>, run on the entries
  \<open>(glob, this.mappings[glob])\<close> in the order of the loop: an object value is a file type
  defined on the fly.
\<close>

fun add_on_the_fly ::
  "(ft_options \<Rightarrow> error + 'ft) \<Rightarrow> 'ft table \<Rightarrow> (string \<times> jsval) list \<Rightarrow> error + 'ft table" where
  "add_on_the_fly new_FileType fts [] = Inr fts"
| "add_on_the_fly new_FileType fts ((glob, v) # rest) =
     (if typeof_object v then
        (case new_FileType ([''name'' \<mapsto> JStr glob] ++ map_of (spread v)) of
           Inl e \<Rightarrow> Inl e
         | Inr t \<Rightarrow> add_on_the_fly new_FileType (table_set fts glob t) rest)
      else add_on_the_fly new_FileType fts rest)"

text \<open>
  The constructor. The registration of rules, rule sets and formatters with the managers
  of the plugin manager does not touch the file types and is left out.
\<close>

definition Project ::
  "(ft_options \<Rightarrow> error + 'ft) \<Rightarrow> string \<Rightarrow> 'pm options option \<Rightarrow> config option
     \<Rightarrow> error + 'ft project" where
  "Project new_FileType rt opts cfg =
     (case (opts, cfg) of
        (Some options, Some config) \<Rightarrow>
          if rt = [] \<or> pluginManager options = None then Inl Insufficient_params
          else
            (case new_FileType xliffFileTypeDefinition of
               Inl e \<Rightarrow> Inl e
             | Inr xliff \<Rightarrow>
            (case new_FileType unknownFileTypeDefinition of
               Inl e \<Rightarrow> Inl e
             | Inr unknown \<Rightarrow>
            (case add_filetypes new_FileType
                    \<lparr> own = [''xliff'' \<mapsto> xliff, ''unknown'' \<mapsto> unknown], proto = None \<rparr>
                    (for_in_order (case config_filetypes config of None \<Rightarrow> [] | Some fs \<Rightarrow> fs)) of
               Inl e \<Rightarrow> Inl e
             | Inr fts \<Rightarrow>
            (case add_on_the_fly new_FileType fts
                    (for_in_order (case config_paths config of None \<Rightarrow> [] | Some ps \<Rightarrow> ps)) of
               Inl e \<Rightarrow> Inl e
             | Inr fts' \<Rightarrow>
                 Inr \<lparr> root = rt, filetypes = fts', mappings = config_paths config \<rparr>))))
      | _ \<Rightarrow> Inl Insufficient_params)"

subsection \<open>The file type of a path\<close>

text \<open>
  The body of the loop of \<^verbatim>\<open>getFileTypeForPath\<close>, run on the entries of \<^verbatim>\<open>this.mappings\<close> in
  the order of the loop, with its return from inside the loop.
\<close>

fun scan_mappings ::
  "('ft \<Rightarrow> string \<Rightarrow> bool) \<Rightarrow> (string \<Rightarrow> string \<Rightarrow> bool) \<Rightarrow> 'ft table \<Rightarrow> string
     \<Rightarrow> (string \<times> jsval) list \<Rightarrow> 'ft found" where
  "scan_mappings FileType_member isMatch fts pathName [] =
     table_get FileType_member fts ''unknown''"
| "scan_mappings FileType_member isMatch fts pathName ((glob, v) # rest) =
     (if isMatch pathName glob then
        (let name = (case v of JStr s \<Rightarrow> s | _ \<Rightarrow> glob)
         in case table_get FileType_member fts name of
              Not_found \<Rightarrow> table_get FileType_member fts ''unknown''
            | value \<Rightarrow> value)
      else scan_mappings FileType_member isMatch fts pathName rest)"

text \<open>
  \<^verbatim>\<open>path.normalize\<close> and \<^verbatim>\<open>mm.isMatch\<close> belong to libraries and are the parameters
  \<open>path_normalize\<close> and \<open>isMatch\<close>, each taken to return a value on the arguments that it
  is given.
\<close>

definition getFileTypeForPath ::
  "('ft \<Rightarrow> string \<Rightarrow> bool) \<Rightarrow> (string \<Rightarrow> string) \<Rightarrow> (string \<Rightarrow> string \<Rightarrow> bool) \<Rightarrow> 'ft project
     \<Rightarrow> string \<Rightarrow> 'ft found" where
  "getFileTypeForPath FileType_member path_normalize isMatch p pathName =
     scan_mappings FileType_member isMatch (filetypes p) (path_normalize pathName)
       (for_in_order (case mappings p of None \<Rightarrow> [] | Some m \<Rightarrow> m))"

section \<open>The rule instance and its arrays on a heap\<close>

text \<open>
  The methods of the rule once more, now with the arrays that they allocate and push to.
  The heap is the list of all arrays allocated so far, an array being referred to by its
  position; an array holds terms and partial results. The state is the heap together
  with the rule instance, whose field \<^verbatim>\<open>_dntTerms\<close> refers to an array.
\<close>

datatype elem = Str string | Partial partial_result

record rule_instance =
  inst_name :: string
  inst_description :: string
  inst_link :: string
  inst_ruleType :: string
  inst_dntTerms :: nat

record state =
  self :: rule_instance
  heap :: "elem list list"

text \<open>The string that \<^verbatim>\<open>includes\<close> and a template literal make of a value.\<close>

fun to_string :: "elem \<Rightarrow> string" where
  "to_string (Str s) = s"
| "to_string (Partial p) = ''[object Object]''"

text \<open>\<^verbatim>\<open>[]\<close>: a new array, referred to by the position after the last one.\<close>

definition new_array :: "state \<Rightarrow> nat \<times> state" where
  "new_array st = (length (heap st), st\<lparr> heap := heap st @ [[]] \<rparr>)"

text \<open>The elements of the array that \<open>a\<close> refers to.\<close>

definition array_at :: "nat \<Rightarrow> state \<Rightarrow> elem list" where
  "array_at a st = (if a < length (heap st) then heap st ! a else [])"

text \<open>\<^verbatim>\<open>a.push(...xs)\<close>\<close>

definition array_push :: "nat \<Rightarrow> elem list \<Rightarrow> state \<Rightarrow> state" where
  "array_push a xs st = st\<lparr> heap := (heap st)[a := array_at a st @ xs] \<rparr>"

text \<open>
  The body of the loop over the terms in \<^verbatim>\<open>_matchString\<close>; \<open>pr\<close> refers to
  \<^verbatim>\<open>partialResults\<close>.
\<close>

definition h_matchString_body :: "string \<Rightarrow> string \<Rightarrow> nat \<Rightarrow> elem \<Rightarrow> state \<Rightarrow> state" where
  "h_matchString_body src tgt pr term st =
     (if includes_str src (to_string term) \<and> \<not> includes_str tgt (to_string term)
      then array_push pr
             [Partial \<lparr> source = src, highlight = missing_term (to_string term) \<rparr>] st
      else st)"

text \<open>
  \<^verbatim>\<open>for (const term of a)\<close>, where \<open>a\<close> is the array that \<^verbatim>\<open>this._dntTerms\<close> referred to
  when the loop began: the loop reads the array anew in every round, at the position \<open>i\<close>
  it has come to, and ends when \<open>i\<close> is no position of the array. \<open>None\<close> is a loop that
  does not end.
\<close>

partial_function (option) h_matchString_loop ::
  "string \<Rightarrow> string \<Rightarrow> nat \<Rightarrow> nat \<Rightarrow> nat \<Rightarrow> state \<Rightarrow> state option" where
  "h_matchString_loop src tgt pr a i st =
     (if i < length (array_at a st) then
        h_matchString_loop src tgt pr a (Suc i)
          (h_matchString_body src tgt pr (array_at a st ! i) st)
      else Some st)"

text \<open>\<^verbatim>\<open>_matchString\<close>: the reference to \<^verbatim>\<open>partialResults\<close> and the state it leaves.\<close>

definition h_matchString :: "string \<Rightarrow> string \<Rightarrow> state \<Rightarrow> (nat \<times> state) option" where
  "h_matchString src tgt st =
     (case new_array st of
        (pr, st1) \<Rightarrow>
          map_option (Pair pr) (h_matchString_loop src tgt pr (inst_dntTerms (self st1)) 0 st1))"

text \<open>
  The calls of the \<^verbatim>\<open>forEach\<close> callback in \<^verbatim>\<open>_matchArray\<close>, on the items of the source with
  their indices.
\<close>

fun h_matchArray_forEach ::
  "string list \<Rightarrow> nat \<Rightarrow> (string \<times> nat) list \<Rightarrow> state \<Rightarrow> state option" where
  "h_matchArray_forEach tgt pr [] st = Some st"
| "h_matchArray_forEach tgt pr ((sourceItem, idx) # rest) st =
     (case h_matchString sourceItem (target_item tgt idx) st of
        None \<Rightarrow> None
      | Some (inner, st1) \<Rightarrow>
          h_matchArray_forEach tgt pr rest (array_push pr (array_at inner st1) st1))"

definition h_matchArray :: "string list \<Rightarrow> string list \<Rightarrow> state \<Rightarrow> (nat \<times> state) option" where
  "h_matchArray src tgt st =
     (case new_array st of
        (pr, st1) \<Rightarrow>
          map_option (Pair pr) (h_matchArray_forEach tgt pr (zip src [0..<length src]) st1))"

text \<open>The body of the loop over the terms in \<^verbatim>\<open>_matchPlural\<close>, and the loop.\<close>

definition h_matchPlural_body :: "string list \<Rightarrow> string list \<Rightarrow> nat \<Rightarrow> elem \<Rightarrow> state \<Rightarrow> state" where
  "h_matchPlural_body svals tvals pr term st =
     (case find (\<lambda>sourceItem. includes_str sourceItem (to_string term)) svals of
        None \<Rightarrow> st
      | Some matchingSourceItem \<Rightarrow>
          if \<not> list_all (\<lambda>targetItem. includes_str targetItem (to_string term)) tvals
          then array_push pr
                 [Partial \<lparr> source = matchingSourceItem,
                            highlight = missing_term (to_string term) \<rparr>] st
          else st)"

partial_function (option) h_matchPlural_loop ::
  "string list \<Rightarrow> string list \<Rightarrow> nat \<Rightarrow> nat \<Rightarrow> nat \<Rightarrow> state \<Rightarrow> state option" where
  "h_matchPlural_loop svals tvals pr a i st =
     (if i < length (array_at a st) then
        h_matchPlural_loop svals tvals pr a (Suc i)
          (h_matchPlural_body svals tvals pr (array_at a st ! i) st)
      else Some st)"

definition h_matchPlural ::
  "(string \<times> string) list \<Rightarrow> (string \<times> string) list \<Rightarrow> state \<Rightarrow> (nat \<times> state) option" where
  "h_matchPlural src tgt st =
     (case new_array st of
        (pr, st1) \<Rightarrow>
          map_option (Pair pr)
            (h_matchPlural_loop (map snd src) (map snd tgt) pr (inst_dntTerms (self st1)) 0 st1))"

text \<open>
  \<^verbatim>\<open>_matchResource\<close>: \<^verbatim>\<open>undefined\<close> (\<open>None\<close>) or the reference to the array of partial
  results, and the state it leaves.
\<close>

definition h_matchResource ::
  "string list \<Rightarrow> resource \<Rightarrow> state \<Rightarrow> (nat option \<times> state) option" where
  "h_matchResource cats r st =
     (if getType r = ''string'' then
        (case (getSource r, getTarget r) of
           (JStr src, JStr tgt) \<Rightarrow>
             map_option (\<lambda>(pr, st'). (Some pr, st')) (h_matchString src tgt st)
         | _ \<Rightarrow> Some (None, st))
      else if getType r = ''array'' then
        (case (string_array (getSource r), string_array (getTarget r)) of
           (Some src, Some tgt) \<Rightarrow>
             map_option (\<lambda>(pr, st'). (Some pr, st')) (h_matchArray src tgt st)
         | _ \<Rightarrow> Some (None, st))
      else if getType r = ''plural'' then
        (case (object_entries (getSource r), object_entries (getTarget r)) of
           (Some se, Some te) \<Rightarrow>
             (case (every_category cats se, every_category cats te) of
                (Some src, Some tgt) \<Rightarrow>
                  map_option (\<lambda>(pr, st'). (Some pr, st')) (h_matchPlural src tgt st)
              | _ \<Rightarrow> Some (None, st))
         | _ \<Rightarrow> Some (None, st))
      else Some (None, st))"

text \<open>
  The rule that the instance is: its fields, and the terms that the array \<^verbatim>\<open>_dntTerms\<close>
  holds.
\<close>

definition rule_of :: "state \<Rightarrow> dnt_rule" where
  "rule_of st =
     \<lparr> name = inst_name (self st),
       description = inst_description (self st),
       link = inst_link (self st),
       ruleType = inst_ruleType (self st),
       dntTerms = map to_string (array_at (inst_dntTerms (self st)) st) \<rparr>"

text \<open>The partial results that an array holds, if it holds nothing else.\<close>

fun partial_results :: "elem list \<Rightarrow> partial_result list option" where
  "partial_results [] = Some []"
| "partial_results (Partial p # es) = map_option ((#) p) (partial_results es)"
| "partial_results (e # es) = None"

text \<open>
  \<^verbatim>\<open>match\<close>: what it returns and the state it leaves. The array that \<^verbatim>\<open>map\<close> returns is
  given by its elements, and \<^verbatim>\<open>rule: this\<close> by the rule that the instance is. \<open>None\<close> is a
  call that the model does not follow to its end: one with a loop that does not end, or
  one that hands to \<^verbatim>\<open>new Result\<close> the properties of a value that is no partial result.
\<close>

definition h_match ::
  "string list \<Rightarrow> resource \<Rightarrow> string \<Rightarrow> string \<Rightarrow> state \<Rightarrow> (result list option \<times> state) option" where
  "h_match cats r file locale st =
     (case h_matchResource cats r st of
        None \<Rightarrow> None
      | Some (None, st') \<Rightarrow> Some (None, st')
      | Some (Some pr, st') \<Rightarrow>
          (case partial_results (array_at pr st') of
             None \<Rightarrow> None
           | Some partialResults \<Rightarrow>
               Some (Some (map (new_Result (rule_of st') r file locale) partialResults), st')))"

text \<open>
  The constructor on a heap: the initializer of the field \<^verbatim>\<open>_dntTerms\<close> allocates an empty
  array, and the last statement allocates the array of the terms and assigns it to the
  field.
\<close>

definition h_ResourceDNTTerms ::
  "(jsval \<Rightarrow> string option) \<Rightarrow> (string \<Rightarrow> jsval option) \<Rightarrow> (string \<times> jsval) list
     \<Rightarrow> elem list list \<Rightarrow> error + state" where
  "h_ResourceDNTTerms readFileSync JSON_parse params h =
     (case constructor_terms readFileSync JSON_parse params of
        Inl e \<Rightarrow> Inl e
      | Inr terms \<Rightarrow>
          Inr \<lparr> self =
                  \<lparr> inst_name = ''resource-dnt-terms'',
                    inst_description =
                      ''Ensure that Do Not Translate terms have not been translated.'',
                    inst_link =
                      ''https://github.com/ilib-js/i18nlint/blob/main/docs/resource-dnt-terms.md'',
                    inst_ruleType = ''resource'',
                    inst_dntTerms = Suc (length h) \<rparr>,
                heap = h @ [[], map Str (new_Set (filter (\<lambda>t. length t > 0) terms))] \<rparr>)"

section \<open>Notions of the specification\<close>

text \<open>
  The finding that cites \<open>fragment\<close> as the offending source fragment and \<open>term\<close> as the
  missing term, for resource \<open>r\<close> of the file \<open>file\<close> in the locale \<open>locale\<close>.
\<close>

definition finding :: "dnt_rule \<Rightarrow> resource \<Rightarrow> string \<Rightarrow> string \<Rightarrow> string \<Rightarrow> string \<Rightarrow> result" where
  "finding rule r file locale fragment term =
     \<lparr> result_id = getKey r,
       result_rule = rule,
       result_pathName = file,
       result_locale = locale,
       result_severity = ''error'',
       result_description = ''A DNT term is missing in target string.'',
       result_source = fragment,
       result_highlight = ''Missing term: <e0>'' @ term @ ''</e0>'' \<rparr>"

text \<open>
  The findings of the string shape for one pair of a source text and a target text of
  resource \<open>r\<close>: what \<^verbatim>\<open>match\<close> returns for the resource of shape \<open>string\<close> that has the key
  of \<open>r\<close> and this pair as its content.
\<close>

definition string_shape_findings ::
  "string list \<Rightarrow> dnt_rule \<Rightarrow> resource \<Rightarrow> string \<Rightarrow> string \<Rightarrow> string \<Rightarrow> string \<Rightarrow> result list" where
  "string_shape_findings cats rule r file locale s t =
     (case DNT_match cats rule (r\<lparr> getType := ''string'', getSource := JStr s, getTarget := JStr t \<rparr>)
             file locale of
        Some fs \<Rightarrow> fs
      | None \<Rightarrow> [])"

text \<open>
  The shapes of the data model. A resource of shape \<open>string\<close> holds two texts, one of shape
  \<open>array\<close> two sequences of texts, one of shape \<open>plural\<close> two mappings from plural
  categories to texts; a mapping is an object, and as everywhere in JavaScript an array
  counts as an object whose keys are its indices. No other shape is well typed.
\<close>

definition text_sequence :: "jsval \<Rightarrow> bool" where
  "text_sequence v = (case v of JArr xs \<Rightarrow> list_all typeof_string xs | _ \<Rightarrow> False)"

definition category_mapping :: "string list \<Rightarrow> jsval \<Rightarrow> bool" where
  "category_mapping cats v =
     (case object_entries v of
        Some kvs \<Rightarrow> list_all (\<lambda>(k, x). k \<in> set cats \<and> typeof_string x) kvs
      | None \<Rightarrow> False)"

definition well_typed :: "string list \<Rightarrow> resource \<Rightarrow> bool" where
  "well_typed cats r =
     (if getType r = ''string'' then typeof_string (getSource r) \<and> typeof_string (getTarget r)
      else if getType r = ''array'' then text_sequence (getSource r) \<and> text_sequence (getTarget r)
      else if getType r = ''plural'' then
        category_mapping cats (getSource r) \<and> category_mapping cats (getTarget r)
      else False)"

text \<open>
  Term \<open>x\<close> is missing from the target of \<open>r\<close>: it occurs in the source text and not in the
  target text (shape \<open>string\<close>); at some index it occurs in the source element and not in
  the target element, the empty text where the target has no such index (shape \<open>array\<close>);
  it occurs in the text of some source category and not in the text of some target category
  (shape \<open>plural\<close>).
\<close>

definition text_contains :: "jsval \<Rightarrow> string \<Rightarrow> bool" where
  "text_contains v x = (case v of JStr s \<Rightarrow> is_substring x s | _ \<Rightarrow> False)"

definition term_missing :: "resource \<Rightarrow> string \<Rightarrow> bool" where
  "term_missing r x =
     (if getType r = ''string'' then
        text_contains (getSource r) x \<and> \<not> text_contains (getTarget r) x
      else if getType r = ''array'' then
        (case (getSource r, getTarget r) of
           (JArr ss, JArr ts) \<Rightarrow>
             list_ex (\<lambda>i. text_contains (ss ! i) x
                        \<and> \<not> text_contains (if i < length ts then ts ! i else JStr []) x)
               [0..<length ss]
         | _ \<Rightarrow> False)
      else if getType r = ''plural'' then
        (case (object_entries (getSource r), object_entries (getTarget r)) of
           (Some se, Some te) \<Rightarrow>
             list_ex (\<lambda>(k, v). text_contains v x) se \<and> list_ex (\<lambda>(k, v). \<not> text_contains v x) te
         | _ \<Rightarrow> False)
      else False)"

text \<open>
  The findings that one call of \<^verbatim>\<open>checkString\<close> returns: the entries of the list it
  returns, or the one value it returns.
\<close>

definition returned_findings :: "jsval \<Rightarrow> jsval list" where
  "returned_findings v = (case v of JArr xs \<Rightarrow> xs | _ \<Rightarrow> [v])"

text \<open>
  The name of the file type that an entry of the path mapping is bound to: the string it
  holds, or the glob itself when it holds a definition on the fly.
\<close>

definition bound_name :: "string \<times> jsval \<Rightarrow> string" where
  "bound_name entry = (case entry of (glob, v) \<Rightarrow> (case v of JStr s \<Rightarrow> s | _ \<Rightarrow> glob))"

text \<open>The entries of \<^verbatim>\<open>this.mappings\<close>, none when the configuration has no \<^verbatim>\<open>paths\<close>.\<close>

definition mapping_entries :: "'ft project \<Rightarrow> (string \<times> jsval) list" where
  "mapping_entries p = (case mappings p of None \<Rightarrow> [] | Some m \<Rightarrow> m)"

text \<open>
  A name that the table of file types answers with a value of its prototype: a property
  of \<^verbatim>\<open>Object.prototype\<close>, or, once a file type has become the prototype, \<^verbatim>\<open>__proto__\<close> or
  a property of that file type.
\<close>

definition inherits :: "('ft \<Rightarrow> string \<Rightarrow> bool) \<Rightarrow> 'ft table \<Rightarrow> string \<Rightarrow> bool" where
  "inherits FileType_member t k =
     (case proto t of
        None \<Rightarrow> k \<in> set Object_prototype_members
      | Some v \<Rightarrow> k = ''__proto__'' \<or> FileType_member v k)"

text \<open>
  The file types that a configuration declares. The entries of \<^verbatim>\<open>paths\<close> that hold a
  definition on the fly, in the order of the loop over \<^verbatim>\<open>paths\<close>:
\<close>

definition inline_definitions :: "config \<Rightarrow> (string \<times> jsval) list" where
  "inline_definitions config =
     filter (\<lambda>(glob, v). typeof_object v)
       (for_in_order (case config_paths config of None \<Rightarrow> [] | Some ps \<Rightarrow> ps))"

text \<open>
  The definition that a configuration declares under the name \<open>n\<close>: the one on the fly
  under the glob \<open>n\<close> in \<^verbatim>\<open>paths\<close>, else the one under the key \<open>n\<close> in \<^verbatim>\<open>filetypes\<close>; \<open>None\<close>
  when it declares neither.
\<close>

definition declared_as :: "config \<Rightarrow> string \<Rightarrow> jsval option" where
  "declared_as config n =
     (case map_of (rev (inline_definitions config)) n of
        Some v \<Rightarrow> Some v
      | None \<Rightarrow>
          map_of (rev (for_in_order (case config_filetypes config of None \<Rightarrow> [] | Some fs \<Rightarrow> fs))) n)"

text \<open>
  The options of the file type declared as \<open>d\<close> under the name \<open>n\<close>: the properties of
  \<open>d\<close>, and the name \<open>n\<close> unless \<open>d\<close> has a name of its own.
\<close>

definition declared_options :: "string \<Rightarrow> jsval \<Rightarrow> ft_options" where
  "declared_options n d = [''name'' \<mapsto> JStr n] ++ map_of (spread d)"
section \<open>Examples\<close>

definition example_rule :: "string list \<Rightarrow> dnt_rule" where
  "example_rule terms =
     \<lparr> name = ''resource-dnt-terms'',
       description = ''Ensure that Do Not Translate terms have not been translated.'',
       link = ''https://github.com/ilib-js/i18nlint/blob/main/docs/resource-dnt-terms.md'',
       ruleType = ''resource'',
       dntTerms = terms \<rparr>"

definition oauth_string :: resource where
  "oauth_string = \<lparr> getKey = ''signin'', getType = ''string'',
      getSource = JStr ''Sign in with OAuth'', getTarget = JStr ''Connectez-vous'' \<rparr>"

text \<open>The plural categories of CLDR, an instance of the table
  \<^verbatim>\<open>ResourcePlural.validPluralCategories\<close>.\<close>

definition plural_categories :: "string list" where
  "plural_categories = [''zero'', ''one'', ''two'', ''few'', ''many'', ''other'']"

definition oauth_plural :: resource where
  "oauth_plural = \<lparr> getKey = ''tokens'', getType = ''plural'',
      getSource = JObj [(''one'', JStr ''1 OAuth token''), (''other'', JStr ''%d OAuth tokens'')],
      getTarget = JObj [(''one'', JStr ''1 jeton''), (''other'', JStr ''%d jetons OAuth'')] \<rparr>"

definition oauth_array :: resource where
  "oauth_array = \<lparr> getKey = ''steps'', getType = ''array'',
      getSource = JArr [JStr ''Use OAuth'', JStr ''OAuth here'', JStr ''Done''],
      getTarget = JArr [JStr ''Utilisez OAuth''] \<rparr>"

definition translated_string :: resource where
  "translated_string = \<lparr> getKey = ''signin'', getType = ''string'',
      getSource = JStr ''Sign in with OAuth'', getTarget = JStr ''Connectez-vous avec OAuth'' \<rparr>"

definition untranslated_string :: resource where
  "untranslated_string = \<lparr> getKey = ''signin'', getType = ''string'',
      getSource = JStr ''Sign in with OAuth'', getTarget = JUndefined \<rparr>"

definition number_in_array :: resource where
  "number_in_array = \<lparr> getKey = ''steps'', getType = ''array'',
      getSource = JArr [JStr ''Use OAuth'', JNum 3], getTarget = JArr [] \<rparr>"

definition bad_category :: resource where
  "bad_category = \<lparr> getKey = ''tokens'', getType = ''plural'',
      getSource = JObj [(''one'', JStr ''1 OAuth token''), (''several'', JStr ''%d OAuth tokens'')],
      getTarget = JObj [(''one'', JStr ''1 jeton'')] \<rparr>"

definition unknown_shape :: resource where
  "unknown_shape = \<lparr> getKey = ''logo'', getType = ''image'',
      getSource = JStr ''OAuth'', getTarget = JStr ''logo'' \<rparr>"

text \<open>
  An instance of the library parameters of the rule's constructor: a file system with two
  files, and \<^verbatim>\<open>JSON.parse\<close> on the texts that the examples use.
\<close>

definition example_files :: "jsval \<Rightarrow> string option" where
  \<open>example_files path =
     (if path = JStr ''broken.json'' then Some ''["OAuth"''
      else if path = JStr ''object.json'' then Some ''{"foo": 1}''
      else None)\<close>

definition example_JSON_parse :: "string \<Rightarrow> jsval option" where
  \<open>example_JSON_parse text =
     (if text = ''{"foo": 1}'' then Some (JObj [(''foo'', JNum 1)])
      else if text = ''["OAuth"]'' then Some (JArr [JStr ''OAuth''])
      else None)\<close>

text \<open>
  The state that the constructor of the rule leaves on an empty heap for the terms
  \<^verbatim>\<open>["OAuth"]\<close>.
\<close>

definition example_state :: state where
  "example_state =
     \<lparr> self =
         \<lparr> inst_name = ''resource-dnt-terms'',
           inst_description = ''Ensure that Do Not Translate terms have not been translated.'',
           inst_link = ''https://github.com/ilib-js/i18nlint/blob/main/docs/resource-dnt-terms.md'',
           inst_ruleType = ''resource'',
           inst_dntTerms = 1 \<rparr>,
       heap = [[], [Str ''OAuth'']] \<rparr>"

text \<open>
  An instance of the library parameters of the project: \<^verbatim>\<open>mm.isMatch\<close> on the paths and
  globs that the examples use, and a constructor of file types that keeps the options it
  is given, with the properties that such a file type answers with a truthy value.
\<close>

definition example_isMatch :: "string \<Rightarrow> string \<Rightarrow> bool" where
  "example_isMatch pathName glob =
     (pathName = glob \<or> glob = ''**/*''
      \<or> (pathName, glob) \<in> set [(''src/x.js'', ''src/**''), (''src/x.js'', ''**/*.js''),
                               (''lib/y.js'', ''**/*.js''), (''docs/readme.md'', ''**/*.md'')])"

definition example_member :: "ft_options \<Rightarrow> string \<Rightarrow> bool" where
  "example_member ft k =
     (case ft k of Some v \<Rightarrow> truthy v | None \<Rightarrow> k \<in> set Object_prototype_members)"

text \<open>A configuration with two file types and three path mappings, and its project.\<close>

definition example_options :: "unit options" where
  "example_options = \<lparr> pluginManager = Some () \<rparr>"

definition example_config :: config where
  "example_config =
     \<lparr> config_filetypes = Some [(''A'', JObj [(''ruleset'', JArr [JStr ''resource-check-all''])]),
                                (''B'', JObj [])],
       config_paths = Some [(''src/**'', JStr ''A''), (''**/*.js'', JStr ''B''),
                            (''**/*.md'', JStr ''markdown'')] \<rparr>"

definition example_project :: "ft_options project" where
  "example_project =
     \<lparr> root = ''.'',
       filetypes =
         \<lparr> own =
             [''xliff'' \<mapsto> xliffFileTypeDefinition,
              ''unknown'' \<mapsto> unknownFileTypeDefinition,
              ''A'' \<mapsto> [''name'' \<mapsto> JStr ''A'', ''ruleset'' \<mapsto> JArr [JStr ''resource-check-all'']],
              ''B'' \<mapsto> [''name'' \<mapsto> JStr ''B'']],
           proto = None \<rparr>,
       mappings = Some [(''src/**'', JStr ''A''), (''**/*.js'', JStr ''B''),
                        (''**/*.md'', JStr ''markdown'')] \<rparr>"

text \<open>A configuration that declares a file type named \<^verbatim>\<open>unknown\<close>, and its project.\<close>

definition override_config :: config where
  "override_config =
     \<lparr> config_filetypes =
         Some [(''unknown'', JObj [(''ruleset'', JArr [JStr ''resource-check-all''])])],
       config_paths = None \<rparr>"

definition override_project :: "ft_options project" where
  "override_project =
     \<lparr> root = ''.'',
       filetypes =
         \<lparr> own =
             [''xliff'' \<mapsto> xliffFileTypeDefinition,
              ''unknown'' \<mapsto>
                [''name'' \<mapsto> JStr ''unknown'', ''ruleset'' \<mapsto> JArr [JStr ''resource-check-all'']]],
           proto = None \<rparr>,
       mappings = None \<rparr>"

text \<open>
  A configuration whose path mappings name a property of \<^verbatim>\<open>Object.prototype\<close> and have a
  glob that is an array index, and its project.
\<close>

definition quirk_config :: config where
  "quirk_config =
     \<lparr> config_filetypes = Some [(''A'', JObj [(''ruleset'', JArr [JStr ''resource-check-all''])]),
                                (''B'', JObj [])],
       config_paths = Some [(''**/*.js'', JStr ''toString''), (''**/*'', JStr ''A''),
                            (''7'', JStr ''B'')] \<rparr>"

definition quirk_project :: "ft_options project" where
  "quirk_project =
     \<lparr> root = ''.'',
       filetypes =
         \<lparr> own =
             [''xliff'' \<mapsto> xliffFileTypeDefinition,
              ''unknown'' \<mapsto> unknownFileTypeDefinition,
              ''A'' \<mapsto> [''name'' \<mapsto> JStr ''A'', ''ruleset'' \<mapsto> JArr [JStr ''resource-check-all'']],
              ''B'' \<mapsto> [''name'' \<mapsto> JStr ''B'']],
           proto = None \<rparr>,
       mappings = Some [(''**/*.js'', JStr ''toString''), (''**/*'', JStr ''A''),
                        (''7'', JStr ''B'')] \<rparr>"
section \<open>Auxiliary lemmas\<close>

lemma occurs_at_start_iff: "occurs_at_start s t \<longleftrightarrow> (\<exists>q. s = t @ q)"
  by (induction s t rule: occurs_at_start.induct) auto

lemma includes_str_iff: "includes_str s t \<longleftrightarrow> is_substring t s"
proof (induction s)
  case Nil
  then show ?case by (auto simp: is_substring_def)
next
  case (Cons a s)
  have "is_substring t (a # s) \<longleftrightarrow> (\<exists>q. a # s = t @ q) \<or> is_substring t s"
    unfolding is_substring_def
    by (auto simp: Cons_eq_append_conv) 
  then show ?case using Cons by (simp add: occurs_at_start_iff del: occurs_at_start.simps)
qed

lemma foldl_matchString_step:
  "foldl (DNT_matchString_step s t) acc terms =
     acc @ map (\<lambda>x. \<lparr> source = s, highlight = missing_term x \<rparr>)
             (filter (\<lambda>x. includes_str s x \<and> \<not> includes_str t x) terms)"
  by (induction terms arbitrary: acc) (auto simp: DNT_matchString_step_def)

lemma DNT_matchString_eq:
  "DNT_matchString terms s t =
     map (\<lambda>x. \<lparr> source = s, highlight = missing_term x \<rparr>)
       (filter (\<lambda>x. is_substring x s \<and> \<not> is_substring x t) terms)"
  by (simp add: DNT_matchString_def foldl_matchString_step includes_str_iff)

lemma new_Result_finding:
  "new_Result rule r file locale \<lparr> source = s, highlight = missing_term x \<rparr> =
     finding rule r file locale s x"
  by (simp add: new_Result_def finding_def missing_term_def)

lemma finding_inj: "finding rule r file locale s x = finding rule r file locale s' x' \<longleftrightarrow> s = s' \<and> x = x'"
  by (auto simp: finding_def)

lemma DNT_match_string:
  assumes "getType r = ''string''" and "getSource r = JStr s" and "getTarget r = JStr t"
  shows "DNT_match cats rule r path loc =
           Some (map (finding rule r path loc s)
                  (filter (\<lambda>x. is_substring x s \<and> \<not> is_substring x t) (dntTerms rule)))"
  using assms
  by (simp add: DNT_match_def DNT_matchResource_def DNT_matchString_eq o_def new_Result_finding)

lemma foldl_matchPlural_step:
  "foldl (DNT_matchPlural_step sv tv) acc terms =
     acc @ map (\<lambda>x. \<lparr> source = the (find (\<lambda>s. includes_str s x) sv), highlight = missing_term x \<rparr>)
             (filter (\<lambda>x. (\<exists>s\<in>set sv. includes_str s x) \<and> \<not> (\<forall>t\<in>set tv. includes_str t x)) terms)"
proof (induction terms arbitrary: acc)
  case Nil
  then show ?case by simp
next
  case (Cons x terms)
  show ?case
  proof (cases "find (\<lambda>s. includes_str s x) sv")
    case None
    then have "\<not> (\<exists>s\<in>set sv. includes_str s x)" by (simp add: find_None_iff)
    with None Cons show ?thesis by (simp add: DNT_matchPlural_step_def)
  next
    case (Some m)
    then have "\<exists>s\<in>set sv. includes_str s x"
      by (metis find_None_iff option.distinct(1))
    with Some Cons show ?thesis
      by (simp add: DNT_matchPlural_step_def list_all_iff)
  qed
qed

lemma foldl_append_concat:
  "foldl (\<lambda>acc x. acc @ f x) acc xs = acc @ concat (map f xs)"
  by (induction xs arbitrary: acc) simp_all

lemma zip_upt_index: "zip xs [0..<length xs] = map (\<lambda>i. (xs ! i, i)) [0..<length xs]"
  by (rule nth_equalityI) simp_all

lemma DNT_matchArray_eq:
  "DNT_matchArray terms src tgt =
     concat (map (\<lambda>i. DNT_matchString terms (src ! i) (target_item tgt i)) [0..<length src])"
proof -
  have "DNT_matchArray_step terms tgt = (\<lambda>acc item. acc @ (case item of (s, i) \<Rightarrow> DNT_matchString terms s (target_item tgt i)))"
    by (auto simp: DNT_matchArray_step_def fun_eq_iff)
  then show ?thesis
    by (simp add: DNT_matchArray_def foldl_append_concat zip_upt_index o_def)
qed

lemma every_string_map_JStr: "every_string (map JStr xs) = Some xs"
  by (induction xs) simp_all

lemma every_string_None_iff: "every_string vs = None \<longleftrightarrow> \<not> list_all typeof_string vs"
  by (induction vs rule: every_string.induct) simp_all

lemma every_category_None_iff:
  "every_category cats kvs = None \<longleftrightarrow> \<not> list_all (\<lambda>(k, v). k \<in> set cats \<and> typeof_string v) kvs"
  by (induction cats kvs rule: every_category.induct) simp_all

lemma every_category_map_JStr:
  "fst ` set kss \<subseteq> set cats \<Longrightarrow> every_category cats (map (\<lambda>(k, s). (k, JStr s)) kss) = Some kss"
  by (induction kss) auto

lemma DNT_matchPlural_eq:
  "DNT_matchPlural terms src tgt =
     map (\<lambda>x. \<lparr> source = the (find (\<lambda>s. is_substring x s) (map snd src)),
                 highlight = missing_term x \<rparr>)
       (filter (\<lambda>x. (\<exists>s\<in>set (map snd src). is_substring x s)
                    \<and> \<not> (\<forall>t\<in>set (map snd tgt). is_substring x t)) terms)"
  by (simp add: DNT_matchPlural_def foldl_matchPlural_step includes_str_iff)

lemma DNT_match_plural:
  assumes "getType r = ''plural''"
    and "object_entries (getSource r) = Some (map (\<lambda>(k, s). (k, JStr s)) src)"
    and "object_entries (getTarget r) = Some (map (\<lambda>(k, s). (k, JStr s)) tgt)"
    and "fst ` set src \<subseteq> set cats" and "fst ` set tgt \<subseteq> set cats"
  shows "DNT_match cats rule r path loc =
     Some (map (\<lambda>x. finding rule r path loc (the (find (\<lambda>s. is_substring x s) (map snd src))) x)
       (filter (\<lambda>x. (\<exists>s\<in>set (map snd src). is_substring x s)
                    \<and> \<not> (\<forall>t\<in>set (map snd tgt). is_substring x t)) (dntTerms rule)))"
  using assms
  by (simp add: DNT_match_def DNT_matchResource_def every_category_map_JStr
      DNT_matchPlural_eq o_def new_Result_finding)

lemma highlight_finding:
  "result_highlight (finding rule r path loc s x) = ''Missing term: <e0>'' @ x @ ''</e0>''"
  by (simp add: finding_def)

lemma filter_eq_distinct_le_1: "distinct xs \<Longrightarrow> length (filter (\<lambda>y. y = x) xs) \<le> Suc 0"
  by (induction xs) (auto simp: filter_empty_conv)

lemma find_first_index:
  "find P xs = Some m \<Longrightarrow> \<exists>i<length xs. m = xs ! i \<and> P (xs ! i) \<and> (\<forall>j<i. \<not> P (xs ! j))"
  by (auto simp: find_Some_iff)

lemma DNT_match_array:
  assumes "getType r = ''array''"
    and "getSource r = JArr (map JStr src)" and "getTarget r = JArr (map JStr tgt)"
  shows "DNT_match cats rule r path loc =
     Some (map (new_Result rule r path loc)
       (concat (map (\<lambda>i. DNT_matchString (dntTerms rule) (src ! i) (target_item tgt i))
          [0..<length src])))"
  using assms
  by (simp add: DNT_match_def DNT_matchResource_def string_array_def every_string_map_JStr
      DNT_matchArray_eq)

lemma string_array_None_iff: "string_array v = None \<longleftrightarrow> \<not> text_sequence v"
  by (cases v) (simp_all add: string_array_def text_sequence_def every_string_None_iff)

lemma typeof_string_iff: "typeof_string v \<longleftrightarrow> (\<exists>s. v = JStr s)"
  by (cases v) simp_all

lemma DNT_matchResource_None_iff:
  "DNT_matchResource cats rule r = None \<longleftrightarrow> \<not> well_typed cats r"
proof -
  consider (s) "getType r = ''string''" | (a) "getType r = ''array''"
    | (p) "getType r = ''plural''"
    | (o) "getType r \<noteq> ''string''" "getType r \<noteq> ''array''" "getType r \<noteq> ''plural''"
    by blast
  then show ?thesis
  proof cases
    case s
    then show ?thesis
      by (cases "getSource r"; cases "getTarget r")
         (simp_all add: DNT_matchResource_def well_typed_def)
  next
    case a
    then show ?thesis
      using string_array_None_iff [of "getSource r"] string_array_None_iff [of "getTarget r"]
      by (auto simp: DNT_matchResource_def well_typed_def split: option.splits)
  next
    case p
    have some: "list_all (\<lambda>(k, v). k \<in> set cats \<and> typeof_string v) kvs"
      if "every_category cats kvs = Some kss" for kvs kss
      using that every_category_None_iff [of cats kvs] by simp
    from p show ?thesis
      by (auto simp: DNT_matchResource_def well_typed_def category_mapping_def
          every_category_None_iff dest: some split: option.splits)
  next
    case o
    then show ?thesis by (simp add: DNT_matchResource_def well_typed_def)
  qed
qed

lemma DNT_match_None_iff:
  "DNT_match cats rule r path loc = None \<longleftrightarrow> \<not> well_typed cats r"
  by (simp add: DNT_match_def DNT_matchResource_None_iff)

lemma all_strings_map_JStr: "list_all typeof_string vs \<Longrightarrow> \<exists>xs. vs = map JStr xs"
proof (induction vs)
  case Nil
  then show ?case by simp
next
  case (Cons v vs)
  then obtain s xs where "v = JStr s" "vs = map JStr xs"
    by (auto simp: typeof_string_iff)
  then have "v # vs = map JStr (s # xs)" by simp
  then show ?case by (rule exI)
qed

lemma category_entries_map_JStr:
  "list_all (\<lambda>(k, v). k \<in> set cats \<and> typeof_string v) kvs \<Longrightarrow>
     \<exists>kss. kvs = map (\<lambda>(k, s). (k, JStr s)) kss \<and> fst ` set kss \<subseteq> set cats"
proof (induction kvs)
  case Nil
  then show ?case by simp
next
  case (Cons kv kvs)
  then obtain k s kss where "kv = (k, JStr s)" "k \<in> set cats"
    "kvs = map (\<lambda>(k, s). (k, JStr s)) kss" "fst ` set kss \<subseteq> set cats"
    by (cases kv) (auto simp: typeof_string_iff)
  then have "kv # kvs = map (\<lambda>(k, s). (k, JStr s)) ((k, s) # kss)
               \<and> fst ` set ((k, s) # kss) \<subseteq> set cats"
    by simp
  then show ?case by (rule exI)
qed

lemma no_missing_string:
  assumes "getType r = ''string''" and "getSource r = JStr s" and "getTarget r = JStr t"
    and "\<forall>x\<in>set (dntTerms rule). \<not> term_missing r x"
  shows "DNT_match cats rule r path loc = Some []"
proof -
  have "filter (\<lambda>x. is_substring x s \<and> \<not> is_substring x t) (dntTerms rule) = []"
    using assms by (auto simp: filter_empty_conv term_missing_def text_contains_def)
  then show ?thesis
    using DNT_match_string [OF assms(1-3), of cats rule path loc] by simp
qed

lemma no_missing_array:
  assumes "getType r = ''array''"
    and "getSource r = JArr (map JStr src)" and "getTarget r = JArr (map JStr tgt)"
    and "\<forall>x\<in>set (dntTerms rule). \<not> term_missing r x"
  shows "DNT_match cats rule r path loc = Some []"
proof -
  have "DNT_matchString (dntTerms rule) (src ! i) (target_item tgt i) = []"
    if "i < length src" for i
  proof -
    have "\<not> (is_substring x (src ! i) \<and> \<not> is_substring x (target_item tgt i))"
      if "x \<in> set (dntTerms rule)" for x
    proof -
      from assms that have "\<not> list_ex (\<lambda>i. text_contains (map JStr src ! i) x
                        \<and> \<not> text_contains (if i < length (map JStr tgt) then map JStr tgt ! i else JStr []) x)
               [0..<length (map JStr src)]"
        by (simp add: term_missing_def)
      with \<open>i < length src\<close> show ?thesis
        by (auto simp: list_ex_iff text_contains_def target_item_def split: if_splits)
    qed
    then show ?thesis by (simp add: DNT_matchString_eq filter_empty_conv)
  qed
  then show ?thesis
    using DNT_match_array [OF assms(1-3), of cats rule path loc] by simp
qed

lemma list_ex_entries:
  "list_ex (\<lambda>(k, v). P v) (map (\<lambda>(k, s). (k, JStr s)) kss) \<longleftrightarrow> (\<exists>s\<in>set (map snd kss). P (JStr s))"
  by (induction kss) auto

lemma no_missing_plural:
  assumes "getType r = ''plural''"
    and "object_entries (getSource r) = Some (map (\<lambda>(k, s). (k, JStr s)) src)"
    and "object_entries (getTarget r) = Some (map (\<lambda>(k, s). (k, JStr s)) tgt)"
    and "fst ` set src \<subseteq> set cats" and "fst ` set tgt \<subseteq> set cats"
    and "\<forall>x\<in>set (dntTerms rule). \<not> term_missing r x"
  shows "DNT_match cats rule r path loc = Some []"
proof -
  have "\<not> ((\<exists>s\<in>set (map snd src). is_substring x s)
            \<and> \<not> (\<forall>t\<in>set (map snd tgt). is_substring x t))"
    if "x \<in> set (dntTerms rule)" for x
  proof -
    from assms that have "\<not> (list_ex (\<lambda>(k, v). text_contains v x) (map (\<lambda>(k, s). (k, JStr s)) src)
        \<and> list_ex (\<lambda>(k, v). \<not> text_contains v x) (map (\<lambda>(k, s). (k, JStr s)) tgt))"
      by (simp add: term_missing_def)
    then show ?thesis
      by (simp add: list_ex_entries text_contains_def)
  qed
  then have "filter (\<lambda>x. (\<exists>s\<in>set (map snd src). is_substring x s)
                    \<and> \<not> (\<forall>t\<in>set (map snd tgt). is_substring x t)) (dntTerms rule) = []"
    by (simp add: filter_empty_conv)
  then show ?thesis
    using DNT_match_plural [OF assms(1-5), of rule path loc] by simp
qed

lemma no_missing_empty:
  assumes "well_typed cats r" and "\<forall>x\<in>set (dntTerms rule). \<not> term_missing r x"
  shows "DNT_match cats rule r path loc = Some []"
proof -
  consider (s) "getType r = ''string''" | (a) "getType r = ''array''"
    | (p) "getType r = ''plural''"
    | (o) "getType r \<noteq> ''string''" "getType r \<noteq> ''array''" "getType r \<noteq> ''plural''"
    by blast
  then show ?thesis
  proof cases
    case s
    with assms(1) obtain src tgt where "getSource r = JStr src" "getTarget r = JStr tgt"
      by (auto simp: well_typed_def typeof_string_iff)
    with s assms(2) show ?thesis by (intro no_missing_string)
  next
    case a
    with assms(1) obtain ss ts where st: "getSource r = JArr ss" "getTarget r = JArr ts"
      "list_all typeof_string ss" "list_all typeof_string ts"
      by (auto simp: well_typed_def text_sequence_def split: jsval.splits)
    from all_strings_map_JStr [OF st(3)] obtain src where src: "ss = map JStr src" ..
    from all_strings_map_JStr [OF st(4)] obtain tgt where tgt: "ts = map JStr tgt" ..
    note src tgt
    with a st assms(2) show ?thesis by (intro no_missing_array [of r src tgt]) simp_all
  next
    case p
    with assms(1) obtain se te where e: "object_entries (getSource r) = Some se"
      "object_entries (getTarget r) = Some te"
      "list_all (\<lambda>(k, v). k \<in> set cats \<and> typeof_string v) se"
      "list_all (\<lambda>(k, v). k \<in> set cats \<and> typeof_string v) te"
      by (auto simp: well_typed_def category_mapping_def split: option.splits)
    from category_entries_map_JStr [OF e(3)] obtain src
      where src: "se = map (\<lambda>(k, s). (k, JStr s)) src" "fst ` set src \<subseteq> set cats"
      by blast
    from category_entries_map_JStr [OF e(4)] obtain tgt
      where tgt: "te = map (\<lambda>(k, s). (k, JStr s)) tgt" "fst ` set tgt \<subseteq> set cats"
      by blast
    note src tgt
    with p e assms(2) show ?thesis by (intro no_missing_plural [of r src tgt]) simp_all
  next
    case o
    with assms(1) show ?thesis by (simp add: well_typed_def)
  qed
qed

lemma constructor_error:
  "constructor_terms readFileSync JSON_parse params = Inl e \<Longrightarrow>
     ResourceDNTTerms readFileSync JSON_parse params = Inl e"
  by (simp add: ResourceDNTTerms_def)

lemma foldl_concat_js:
  "foldl (\<lambda>results r. concat_js results (f r)) acc re =
     acc @ concat (map (\<lambda>r. returned_findings (f r)) re)"
  by (induction re arbitrary: acc)
     (simp_all add: concat_js_def returned_findings_def split: jsval.splits)

lemma set_foldl_Set_add: "set (foldl Set_add acc xs) = set acc \<union> set xs"
  by (induction xs arbitrary: acc) (auto simp: Set_add_def)

lemma distinct_foldl_Set_add: "distinct acc \<Longrightarrow> distinct (foldl Set_add acc xs)"
  by (induction xs arbitrary: acc) (auto simp: Set_add_def)

lemma set_new_Set: "set (new_Set xs) = set xs"
  by (simp add: new_Set_def set_foldl_Set_add)

lemma distinct_new_Set: "distinct (new_Set xs)"
  by (simp add: new_Set_def distinct_foldl_Set_add)

lemma ResourceDNTTerms_distinct:
  "ResourceDNTTerms readFileSync JSON_parse params = Inr rule \<Longrightarrow>
     distinct (dntTerms rule) \<and> [] \<notin> set (dntTerms rule)"
  by (auto simp: ResourceDNTTerms_def distinct_new_Set set_new_Set split: sum.splits)

lemma ResourceDNTTerms_explicit_terms:
  assumes "''terms'' \<in> fst ` set params" and "get_prop params ''terms'' = JArr (map JStr T)"
    and "ResourceDNTTerms readFileSync JSON_parse params = Inr rule"
  shows "set (dntTerms rule) = set T - {[]}"
  using assms
  by (auto simp: ResourceDNTTerms_def constructor_terms_def string_array_def
      every_string_map_JStr set_new_Set split: sum.splits)

lemma is_substring_Nil: "is_substring [] s"
  using includes_str_iff [of s "[]"] by (cases s) simp_all

subsection \<open>The rule on a heap\<close>

lemma self_array_push: "self (array_push a xs st) = self st"
  by (simp add: array_push_def)

lemma length_heap_array_push: "length (heap (array_push a xs st)) = length (heap st)"
  by (simp add: array_push_def)

lemma array_at_array_push_other: "b \<noteq> a \<Longrightarrow> array_at b (array_push a xs st) = array_at b st"
  by (simp add: array_push_def array_at_def)

lemma array_push_Nil: "array_push a [] st = st"
  by (simp add: array_push_def array_at_def list_update_beyond)

lemma array_push_array_push:
  "array_push a ys (array_push a xs st) = array_push a (xs @ ys) st"
  by (simp add: array_push_def array_at_def list_update_beyond)

lemma h_matchString_body_push:
  "h_matchString_body src tgt pr term st =
     array_push pr (map Partial (DNT_matchString_step src tgt [] (to_string term))) st"
  by (simp add: h_matchString_body_def DNT_matchString_step_def array_push_Nil)

lemma h_matchPlural_body_push:
  "h_matchPlural_body svals tvals pr term st =
     array_push pr (map Partial (DNT_matchPlural_step svals tvals [] (to_string term))) st"
  by (simp add: h_matchPlural_body_def DNT_matchPlural_step_def array_push_Nil split: option.splits)

lemma foldl_matchString_step_Cons:
  "foldl (DNT_matchString_step src tgt) [] (x # xs) =
     DNT_matchString_step src tgt [] x @ foldl (DNT_matchString_step src tgt) [] xs"
  by (simp add: foldl_matchString_step [of src tgt "DNT_matchString_step src tgt [] x"]
      foldl_matchString_step [of src tgt "[]"])

lemma foldl_matchPlural_step_Cons:
  "foldl (DNT_matchPlural_step sv tv) [] (x # xs) =
     DNT_matchPlural_step sv tv [] x @ foldl (DNT_matchPlural_step sv tv) [] xs"
  by (simp add: foldl_matchPlural_step [of sv tv "DNT_matchPlural_step sv tv [] x"]
      foldl_matchPlural_step [of sv tv "[]"])

lemma h_matchString_loop_eq:
  assumes "pr \<noteq> a"
  shows "h_matchString_loop src tgt pr a i st =
     Some (array_push pr
             (map Partial (foldl (DNT_matchString_step src tgt) []
                (map to_string (drop i (array_at a st))))) st)"
proof (induction "length (array_at a st) - i" arbitrary: i st)
  case 0
  then show ?case
    by (subst h_matchString_loop.simps) (simp add: array_push_Nil)
next
  case (Suc n)
  let ?terms = "array_at a st"
  let ?st = "h_matchString_body src tgt pr (?terms ! i) st"
  from Suc.hyps(2) have i: "i < length ?terms" by simp
  have t: "array_at a ?st = ?terms"
    using assms by (simp add: h_matchString_body_push array_at_array_push_other)
  have "n = length (array_at a ?st) - Suc i"
    using Suc.hyps(2) t by simp
  then have "h_matchString_loop src tgt pr a (Suc i) ?st =
     Some (array_push pr
             (map Partial (foldl (DNT_matchString_step src tgt) []
                (map to_string (drop (Suc i) ?terms)))) ?st)"
    using Suc.hyps(1) [of ?st "Suc i"] t by simp
  moreover have "drop i ?terms = ?terms ! i # drop (Suc i) ?terms"
    using i by (simp add: Cons_nth_drop_Suc)
  ultimately show ?case
    using i
    by (subst h_matchString_loop.simps)
       (simp add: foldl_matchString_step_Cons h_matchString_body_push array_push_array_push
          del: foldl_Cons)
qed

lemma h_matchPlural_loop_eq:
  assumes "pr \<noteq> a"
  shows "h_matchPlural_loop sv tv pr a i st =
     Some (array_push pr
             (map Partial (foldl (DNT_matchPlural_step sv tv) []
                (map to_string (drop i (array_at a st))))) st)"
proof (induction "length (array_at a st) - i" arbitrary: i st)
  case 0
  then show ?case
    by (subst h_matchPlural_loop.simps) (simp add: array_push_Nil)
next
  case (Suc n)
  let ?terms = "array_at a st"
  let ?st = "h_matchPlural_body sv tv pr (?terms ! i) st"
  from Suc.hyps(2) have i: "i < length ?terms" by simp
  have t: "array_at a ?st = ?terms"
    using assms by (simp add: h_matchPlural_body_push array_at_array_push_other)
  have "n = length (array_at a ?st) - Suc i"
    using Suc.hyps(2) t by simp
  then have "h_matchPlural_loop sv tv pr a (Suc i) ?st =
     Some (array_push pr
             (map Partial (foldl (DNT_matchPlural_step sv tv) []
                (map to_string (drop (Suc i) ?terms)))) ?st)"
    using Suc.hyps(1) [of ?st "Suc i"] t by simp
  moreover have "drop i ?terms = ?terms ! i # drop (Suc i) ?terms"
    using i by (simp add: Cons_nth_drop_Suc)
  ultimately show ?case
    using i
    by (subst h_matchPlural_loop.simps)
       (simp add: foldl_matchPlural_step_Cons h_matchPlural_body_push array_push_array_push
          del: foldl_Cons)
qed

lemma rule_of_grown:
  "inst_dntTerms (self st) < length (heap st) \<Longrightarrow> rule_of (st\<lparr> heap := heap st @ h \<rparr>) = rule_of st"
  by (simp add: rule_of_def array_at_def nth_append)

lemma h_matchString_eq:
  assumes "inst_dntTerms (self st) < length (heap st)"
  shows "h_matchString src tgt st =
     Some (length (heap st),
           st\<lparr> heap := heap st @ [map Partial (DNT_matchString (dntTerms (rule_of st)) src tgt)] \<rparr>)"
proof -
  let ?st1 = "st\<lparr> heap := heap st @ [[]] \<rparr>"
  have "length (heap st) \<noteq> inst_dntTerms (self ?st1)"
    using assms by simp
  from h_matchString_loop_eq [OF this, of src tgt 0 ?st1] assms show ?thesis
    by (simp add: h_matchString_def new_array_def array_push_def array_at_def nth_append
        DNT_matchString_def rule_of_def)
qed

lemma h_matchPlural_eq:
  assumes "inst_dntTerms (self st) < length (heap st)"
  shows "h_matchPlural src tgt st =
     Some (length (heap st),
           st\<lparr> heap := heap st @ [map Partial (DNT_matchPlural (dntTerms (rule_of st)) src tgt)] \<rparr>)"
proof -
  let ?st1 = "st\<lparr> heap := heap st @ [[]] \<rparr>"
  have "length (heap st) \<noteq> inst_dntTerms (self ?st1)"
    using assms by simp
  from h_matchPlural_loop_eq [OF this, of "map snd src" "map snd tgt" 0 ?st1] assms show ?thesis
    by (simp add: h_matchPlural_def new_array_def array_push_def array_at_def nth_append
        DNT_matchPlural_def rule_of_def)
qed

lemma rule_of_heap:
  assumes "self st' = self st"
    and "array_at (inst_dntTerms (self st)) st' = array_at (inst_dntTerms (self st)) st"
  shows "rule_of st' = rule_of st"
  using assms by (simp add: rule_of_def)

lemma h_matchArray_forEach_eq:
  assumes "inst_dntTerms (self st) < length (heap st)" and "pr < length (heap st)"
    and "pr \<noteq> inst_dntTerms (self st)"
  shows "\<exists>h. h_matchArray_forEach tgt pr items st =
     Some (st\<lparr> heap :=
              (heap st)[pr := heap st ! pr @
                  map Partial (foldl (DNT_matchArray_step (dntTerms (rule_of st)) tgt) [] items)]
              @ h \<rparr>)"
  using assms
proof (induction items arbitrary: st)
  case Nil
  have "h_matchArray_forEach tgt pr [] st = Some (st\<lparr> heap := (heap st)[pr := heap st ! pr @
          map Partial (foldl (DNT_matchArray_step (dntTerms (rule_of st)) tgt) [] [])] @ [] \<rparr>)"
    by simp
  then show ?case by (rule exI)
next
  case (Cons item items)
  obtain sourceItem idx where item: "item = (sourceItem, idx)" by (cases item)
  let ?terms = "dntTerms (rule_of st)"
  let ?res = "DNT_matchString ?terms sourceItem (target_item tgt idx)"
  let ?st1 = "st\<lparr> heap := heap st @ [map Partial ?res] \<rparr>"
  let ?H2 = "(heap st)[pr := heap st ! pr @ map Partial ?res] @ [map Partial ?res]"
  define st2 where "st2 = st\<lparr> heap := ?H2 \<rparr>"
  have push: "array_push pr (array_at (length (heap st)) ?st1) ?st1 = st2"
    using Cons.prems
    by (simp add: st2_def array_push_def array_at_def nth_append list_update_append)
  have r2: "rule_of st2 = rule_of st"
    using Cons.prems
    by (simp add: st2_def rule_of_def array_at_def nth_append)
  have "\<exists>h. h_matchArray_forEach tgt pr items st2 =
     Some (st2\<lparr> heap :=
              (heap st2)[pr := heap st2 ! pr @
                  map Partial (foldl (DNT_matchArray_step (dntTerms (rule_of st2)) tgt) [] items)]
              @ h \<rparr>)"
    using Cons.prems by (intro Cons.IH) (simp_all add: st2_def)
  then obtain h where h: "h_matchArray_forEach tgt pr items st2 =
     Some (st2\<lparr> heap :=
              (heap st2)[pr := heap st2 ! pr @
                  map Partial (foldl (DNT_matchArray_step ?terms tgt) [] items)]
              @ h \<rparr>)"
    unfolding r2 ..
  have f: "foldl (DNT_matchArray_step ?terms tgt) [] (item # items) =
      ?res @ foldl (DNT_matchArray_step ?terms tgt) [] items"
  proof -
    have e: "DNT_matchArray_step ?terms tgt =
        (\<lambda>acc item. acc @ (case item of (s, i) \<Rightarrow> DNT_matchString ?terms s (target_item tgt i)))"
      by (simp add: DNT_matchArray_step_def fun_eq_iff split: prod.splits)
    show ?thesis
      unfolding e by (simp add: foldl_append_concat item)
  qed
  have "h_matchArray_forEach tgt pr (item # items) st =
      h_matchArray_forEach tgt pr items st2"
    using Cons.prems(1) push by (simp add: item h_matchString_eq)
  also have "\<dots> = Some (st\<lparr> heap :=
              (heap st)[pr := heap st ! pr @
                  map Partial (foldl (DNT_matchArray_step ?terms tgt) [] (item # items))]
              @ (map Partial ?res # h) \<rparr>)"
    using Cons.prems(2) unfolding h f
    by (simp add: st2_def nth_append list_update_append del: foldl_Cons)
  finally show ?case by (rule exI)
qed

lemma h_matchArray_eq:
  assumes "inst_dntTerms (self st) < length (heap st)"
  shows "\<exists>h. h_matchArray src tgt st =
     Some (length (heap st),
           st\<lparr> heap := heap st @ map Partial (DNT_matchArray (dntTerms (rule_of st)) src tgt) # h \<rparr>)"
proof -
  let ?st1 = "st\<lparr> heap := heap st @ [[]] \<rparr>"
  have r: "rule_of ?st1 = rule_of st"
    using assms by (rule rule_of_grown)
  have "\<exists>h. h_matchArray_forEach tgt (length (heap st)) (zip src [0..<length src]) ?st1 =
     Some (?st1\<lparr> heap :=
              (heap ?st1)[length (heap st) := heap ?st1 ! length (heap st) @
                  map Partial (foldl (DNT_matchArray_step (dntTerms (rule_of ?st1)) tgt) []
                     (zip src [0..<length src]))]
              @ h \<rparr>)"
    using assms by (intro h_matchArray_forEach_eq) simp_all
  then obtain h where "h_matchArray_forEach tgt (length (heap st)) (zip src [0..<length src]) ?st1 =
     Some (?st1\<lparr> heap :=
              (heap ?st1)[length (heap st) := heap ?st1 ! length (heap st) @
                  map Partial (DNT_matchArray (dntTerms (rule_of st)) src tgt)]
              @ h \<rparr>)"
    unfolding r DNT_matchArray_def ..
  then have "h_matchArray src tgt st =
     Some (length (heap st),
           st\<lparr> heap := heap st @ map Partial (DNT_matchArray (dntTerms (rule_of st)) src tgt) # h \<rparr>)"
    by (simp add: h_matchArray_def new_array_def)
  then show ?thesis by (rule exI)
qed

lemma partial_results_map_Partial: "partial_results (map Partial ps) = Some ps"
  by (induction ps) simp_all


lemma h_matchResource_eq:
  assumes "inst_dntTerms (self st) < length (heap st)"
  shows "\<exists>h. h_matchResource cats r st =
     Some (case DNT_matchResource cats (rule_of st) r of
             None \<Rightarrow> (None, st)
           | Some partialResults \<Rightarrow>
               (Some (length (heap st)),
                st\<lparr> heap := heap st @ map Partial partialResults # h \<rparr>))"
proof -
  have none: ?thesis
    if "h_matchResource cats r st = Some (None, st)"
      and "DNT_matchResource cats (rule_of st) r = None"
    using that by simp
  have some: ?thesis
    if "h_matchResource cats r st = map_option (\<lambda>(pr, st'). (Some pr, st')) X"
      and "DNT_matchResource cats (rule_of st) r = Some res"
      and "\<exists>h. X = Some (length (heap st), st\<lparr> heap := heap st @ map Partial res # h \<rparr>)"
    for X res
    using that by auto
  have s: "\<exists>h. h_matchString src tgt st =
      Some (length (heap st),
         st\<lparr> heap := heap st @ map Partial (DNT_matchString (dntTerms (rule_of st)) src tgt) # h \<rparr>)"
    for src tgt
    using h_matchString_eq [OF assms, of src tgt] by (intro exI [of _ "[]"]) simp
  have p: "\<exists>h. h_matchPlural src tgt st =
      Some (length (heap st),
         st\<lparr> heap := heap st @ map Partial (DNT_matchPlural (dntTerms (rule_of st)) src tgt) # h \<rparr>)"
    for src tgt
    using h_matchPlural_eq [OF assms, of src tgt] by (intro exI [of _ "[]"]) simp
  note a = h_matchArray_eq [OF assms]
  consider (string) "getType r = ''string''" | (array) "getType r = ''array''"
    | (plural) "getType r = ''plural''"
    | (other) "getType r \<noteq> ''string''" "getType r \<noteq> ''array''" "getType r \<noteq> ''plural''"
    by blast
  then show ?thesis
  proof cases
    case string
    show ?thesis
    proof (cases "\<exists>src tgt. getSource r = JStr src \<and> getTarget r = JStr tgt")
      case True
      then obtain src tgt where "getSource r = JStr src" and "getTarget r = JStr tgt" by blast
      with string show ?thesis
        by (intro some [OF _ _ s [of src tgt]])
           (simp_all add: h_matchResource_def DNT_matchResource_def)
    next
      case False
      with string show ?thesis
        by (intro none) (auto simp: h_matchResource_def DNT_matchResource_def split: jsval.splits)
    qed
  next
    case array
    show ?thesis
    proof (cases "\<exists>src tgt. string_array (getSource r) = Some src
        \<and> string_array (getTarget r) = Some tgt")
      case True
      then obtain src tgt where "string_array (getSource r) = Some src"
        and "string_array (getTarget r) = Some tgt" by blast
      with array show ?thesis
        by (intro some [OF _ _ a [of src tgt]])
           (simp_all add: h_matchResource_def DNT_matchResource_def)
    next
      case False
      with array show ?thesis
        by (intro none) (auto simp: h_matchResource_def DNT_matchResource_def split: option.splits)
    qed
  next
    case plural
    show ?thesis
    proof (cases "\<exists>se te src tgt. object_entries (getSource r) = Some se
        \<and> object_entries (getTarget r) = Some te
        \<and> every_category cats se = Some src \<and> every_category cats te = Some tgt")
      case True
      then obtain se te src tgt where "object_entries (getSource r) = Some se"
        and "object_entries (getTarget r) = Some te"
        and "every_category cats se = Some src" and "every_category cats te = Some tgt"
        by blast
      with plural show ?thesis
        by (intro some [OF _ _ p [of src tgt]])
           (simp_all add: h_matchResource_def DNT_matchResource_def)
    next
      case False
      with plural show ?thesis
        by (intro none) (auto simp: h_matchResource_def DNT_matchResource_def split: option.splits)
    qed
  next
    case other
    then show ?thesis
      by (intro none) (simp_all add: h_matchResource_def DNT_matchResource_def)
  qed
qed

lemma h_match_eq:
  assumes "inst_dntTerms (self st) < length (heap st)"
  shows "\<exists>h. h_match cats r path loc st =
     Some (DNT_match cats (rule_of st) r path loc, st\<lparr> heap := heap st @ h \<rparr>)"
proof (cases "DNT_matchResource cats (rule_of st) r")
  case None
  with h_matchResource_eq [OF assms, of cats r]
  have "h_match cats r path loc st =
     Some (DNT_match cats (rule_of st) r path loc, st\<lparr> heap := heap st @ [] \<rparr>)"
    by (simp add: h_match_def DNT_match_def)
  then show ?thesis by (rule exI)
next
  case (Some partialResults)
  with h_matchResource_eq [OF assms, of cats r] obtain h where
    "h_matchResource cats r st =
       Some (Some (length (heap st)), st\<lparr> heap := heap st @ map Partial partialResults # h \<rparr>)"
    by auto
  with Some assms have "h_match cats r path loc st =
     Some (DNT_match cats (rule_of st) r path loc,
           st\<lparr> heap := heap st @ (map Partial partialResults # h) \<rparr>)"
    by (simp add: h_match_def DNT_match_def array_at_def nth_append partial_results_map_Partial
        rule_of_grown)
  then show ?thesis by (rule exI)
qed

lemma h_ResourceDNTTerms_rule:
  assumes "h_ResourceDNTTerms readFileSync JSON_parse params h = Inr st"
  shows "inst_dntTerms (self st) < length (heap st)"
    and "ResourceDNTTerms readFileSync JSON_parse params = Inr (rule_of st)"
  using assms
  by (auto simp: h_ResourceDNTTerms_def ResourceDNTTerms_def rule_of_def array_at_def nth_append
      o_def split: sum.splits)

lemma example_state_constructed:
  "h_ResourceDNTTerms example_files example_JSON_parse [(''terms'', JArr [JStr ''OAuth''])] [] =
     Inr example_state"
  by (simp add: h_ResourceDNTTerms_def constructor_terms_def get_prop_def string_array_def
      new_Set_def Set_add_def example_state_def)

lemma example_state_rule: "rule_of example_state = example_rule [''OAuth'']"
  by (simp add: rule_of_def example_state_def example_rule_def array_at_def)

lemma example_state_match:
  "DNT_match plural_categories (example_rule [''OAuth'']) oauth_string ''a.xliff'' ''fr-FR'' =
     Some [finding (example_rule [''OAuth'']) oauth_string ''a.xliff'' ''fr-FR''
             ''Sign in with OAuth'' ''OAuth'']"
  using DNT_match_string [where r = oauth_string and s = "''Sign in with OAuth''"
      and t = "''Connectez-vous''" and cats = plural_categories
      and rule = "example_rule [''OAuth'']" and path = "''a.xliff''" and loc = "''fr-FR''"]
  by (simp add: oauth_string_def example_rule_def includes_str_iff [symmetric])

lemma array_at_take:
  assumes "take (length (heap st)) (heap st') = heap st" and "a < length (heap st)"
  shows "array_at a st' = array_at a st"
proof -
  from assms(1) have "length (take (length (heap st)) (heap st')) = length (heap st)"
    by simp
  then have l: "length (heap st) \<le> length (heap st')"
    by simp
  have "heap st ! a = take (length (heap st)) (heap st') ! a"
    using assms(1) by simp
  also have "\<dots> = heap st' ! a"
    using assms(2) by simp
  finally show ?thesis
    using assms(2) l by (simp add: array_at_def)
qed

subsection \<open>The table of file types\<close>

lemma for_in_order_no_index:
  "\<forall>entry\<in>set entries. array_index (fst entry) = None \<Longrightarrow> for_in_order entries = entries"
  by (simp add: for_in_order_def is_array_index_def filter_empty_conv)

lemma table_get_own: "own t k = Some ft \<Longrightarrow> table_get M t k = File_type ft"
  by (simp add: table_get_def)

lemma table_get_Not_found:
  "own t k = None \<Longrightarrow> \<not> inherits M t k \<Longrightarrow> table_get M t k = Not_found"
  by (auto simp: table_get_def inherits_def split: option.splits)

lemma scan_mappings_first:
  assumes "i < length ms" and "isMatch P (fst (ms ! i))"
    and "\<forall>j<i. \<not> isMatch P (fst (ms ! j))"
  shows "scan_mappings M isMatch fts P ms =
           (case table_get M fts (bound_name (ms ! i)) of
              Not_found \<Rightarrow> table_get M fts ''unknown''
            | value \<Rightarrow> value)"
  using assms
proof (induction ms arbitrary: i)
  case Nil
  then show ?case by simp
next
  case (Cons e ms)
  obtain glob v where e: "e = (glob, v)" by (cases e)
  show ?case
  proof (cases i)
    case 0
    with Cons.prems e show ?thesis by (simp add: bound_name_def)
  next
    case (Suc k)
    with Cons.prems have "\<not> isMatch P glob" using e by fastforce
    moreover from Suc Cons.prems have "k < length ms" "isMatch P (fst (ms ! k))"
      "\<forall>j<k. \<not> isMatch P (fst (ms ! j))"
      by auto
    ultimately show ?thesis using Cons.IH [of k] Suc e by simp
  qed
qed

lemma scan_mappings_none:
  "\<forall>e\<in>set ms. \<not> isMatch P (fst e) \<Longrightarrow>
     scan_mappings M isMatch fts P ms = table_get M fts ''unknown''"
  by (induction ms) auto

lemma map_of_rev_Cons:
  "map_of (rev (kv # kvs)) k =
     (case map_of (rev kvs) k of Some d \<Rightarrow> Some d | None \<Rightarrow> if fst kv = k then Some (snd kv) else None)"
  by (cases kv) (simp add: map_add_def split: option.splits)

lemma add_filetypes_own:
  "add_filetypes nf t kvs = Inr t' \<Longrightarrow> k \<noteq> ''__proto__'' \<Longrightarrow>
     (case map_of (rev kvs) k of
        None \<Rightarrow> own t' k = own t k
      | Some d \<Rightarrow> (\<exists>ft. nf (declared_options k d) = Inr ft \<and> own t' k = Some ft))"
proof (induction nf t kvs rule: add_filetypes.induct)
  case (1 nf fts)
  then show ?case by simp
next
  case (2 nf fts ft d rest)
  from "2.prems"(1) obtain x where x: "nf (declared_options ft d) = Inr x"
    and r: "add_filetypes nf (table_set fts ft x) rest = Inr t'"
    by (auto simp: declared_options_def split: sum.splits)
  from "2.IH" [of x] x r "2.prems"(2)
  have IH: "case map_of (rev rest) k of
        None \<Rightarrow> own t' k = own (table_set fts ft x) k
      | Some d \<Rightarrow> (\<exists>ft. nf (declared_options k d) = Inr ft \<and> own t' k = Some ft)"
    by (simp add: declared_options_def)
  show ?case
    using IH x "2.prems"(2)
    by (auto simp: map_of_rev_Cons table_set_def split: option.splits)
qed

lemma add_on_the_fly_own:
  "add_on_the_fly nf t kvs = Inr t' \<Longrightarrow> k \<noteq> ''__proto__'' \<Longrightarrow>
     (case map_of (rev (filter (\<lambda>(glob, v). typeof_object v) kvs)) k of
        None \<Rightarrow> own t' k = own t k
      | Some d \<Rightarrow> (\<exists>ft. nf (declared_options k d) = Inr ft \<and> own t' k = Some ft))"
proof (induction nf t kvs rule: add_on_the_fly.induct)
  case (1 nf fts)
  then show ?case by simp
next
  case (2 nf fts glob v rest)
  show ?case
  proof (cases "typeof_object v")
    case False
    with "2.prems" "2.IH"(2) show ?thesis by simp
  next
    case True
    with "2.prems"(1) obtain x where x: "nf (declared_options glob v) = Inr x"
      and r: "add_on_the_fly nf (table_set fts glob x) rest = Inr t'"
      by (auto simp: declared_options_def split: sum.splits)
    from "2.IH"(1) [OF True, of x] x r "2.prems"(2)
    have IH: "case map_of (rev (filter (\<lambda>(glob, v). typeof_object v) rest)) k of
        None \<Rightarrow> own t' k = own (table_set fts glob x) k
      | Some d \<Rightarrow> (\<exists>ft. nf (declared_options k d) = Inr ft \<and> own t' k = Some ft)"
      by (simp add: declared_options_def)
    show ?thesis
      using IH x True "2.prems"(2)
      by (auto simp: map_of_rev_Cons table_set_def split: option.splits)
  qed
qed

lemma add_filetypes_proto:
  "add_filetypes nf t kvs = Inr t' \<Longrightarrow> ''__proto__'' \<notin> fst ` set kvs \<Longrightarrow> proto t' = proto t"
  by (induction nf t kvs rule: add_filetypes.induct)
     (auto simp: table_set_def split: sum.splits)

lemma add_on_the_fly_proto:
  "add_on_the_fly nf t kvs = Inr t' \<Longrightarrow>
     ''__proto__'' \<notin> fst ` set (filter (\<lambda>(glob, v). typeof_object v) kvs) \<Longrightarrow> proto t' = proto t"
  by (induction nf t kvs rule: add_on_the_fly.induct)
     (auto simp: table_set_def split: sum.splits if_splits)

lemma Project_steps:
  assumes "Project nf rt opts (Some config) = Inr p"
  obtains xliff unknown fts where
    "nf xliffFileTypeDefinition = Inr xliff" and
    "nf unknownFileTypeDefinition = Inr unknown" and
    "add_filetypes nf \<lparr> own = [''xliff'' \<mapsto> xliff, ''unknown'' \<mapsto> unknown], proto = None \<rparr>
       (for_in_order (case config_filetypes config of None \<Rightarrow> [] | Some fs \<Rightarrow> fs)) = Inr fts" and
    "add_on_the_fly nf fts
       (for_in_order (case config_paths config of None \<Rightarrow> [] | Some ps \<Rightarrow> ps)) = Inr (filetypes p)"
  using assms
  by (auto simp: Project_def split: option.splits sum.splits if_splits)

lemma Project_declared:
  assumes "Project nf rt opts (Some config) = Inr p" and "n \<noteq> ''__proto__''"
    and "declared_as config n = Some d"
  shows "\<exists>ft. nf (declared_options n d) = Inr ft \<and> own (filetypes p) n = Some ft"
proof -
  from assms(1) obtain xliff unknown fts where
    a: "add_filetypes nf \<lparr> own = [''xliff'' \<mapsto> xliff, ''unknown'' \<mapsto> unknown], proto = None \<rparr>
       (for_in_order (case config_filetypes config of None \<Rightarrow> [] | Some fs \<Rightarrow> fs)) = Inr fts" and
    b: "add_on_the_fly nf fts
       (for_in_order (case config_paths config of None \<Rightarrow> [] | Some ps \<Rightarrow> ps)) = Inr (filetypes p)"
    by (rule Project_steps)
  show ?thesis
    using add_filetypes_own [OF a assms(2)] add_on_the_fly_own [OF b assms(2)] assms(3)
    by (auto simp: declared_as_def inline_definitions_def split: option.splits)
qed

lemma Project_undeclared:
  assumes "Project nf rt opts (Some config) = Inr p" and "n \<noteq> ''__proto__''"
    and "declared_as config n = None"
  shows "own (filetypes p) n =
           (if n = ''xliff'' then Some (projr (nf xliffFileTypeDefinition))
            else if n = ''unknown'' then Some (projr (nf unknownFileTypeDefinition))
            else None)"
    and "\<not> isl (nf xliffFileTypeDefinition)" and "\<not> isl (nf unknownFileTypeDefinition)"
proof -
  from assms(1) obtain xliff unknown fts where
    x: "nf xliffFileTypeDefinition = Inr xliff" and
    u: "nf unknownFileTypeDefinition = Inr unknown" and
    a: "add_filetypes nf \<lparr> own = [''xliff'' \<mapsto> xliff, ''unknown'' \<mapsto> unknown], proto = None \<rparr>
       (for_in_order (case config_filetypes config of None \<Rightarrow> [] | Some fs \<Rightarrow> fs)) = Inr fts" and
    b: "add_on_the_fly nf fts
       (for_in_order (case config_paths config of None \<Rightarrow> [] | Some ps \<Rightarrow> ps)) = Inr (filetypes p)"
    by (rule Project_steps)
  show "own (filetypes p) n =
           (if n = ''xliff'' then Some (projr (nf xliffFileTypeDefinition))
            else if n = ''unknown'' then Some (projr (nf unknownFileTypeDefinition))
            else None)"
    using add_filetypes_own [OF a assms(2)] add_on_the_fly_own [OF b assms(2)] assms(3) x u
    by (auto simp: declared_as_def inline_definitions_def split: option.splits)
  show "\<not> isl (nf xliffFileTypeDefinition)" "\<not> isl (nf unknownFileTypeDefinition)"
    using x u by simp_all
qed

lemma Project_builtin_names:
  assumes "Project nf rt opts (Some config) = Inr p"
  shows "\<exists>x. own (filetypes p) ''xliff'' = Some x" and "\<exists>u. own (filetypes p) ''unknown'' = Some u"
proof -
  have "\<exists>x. own (filetypes p) n = Some x" if "n = ''xliff'' \<or> n = ''unknown''" for n
  proof (cases "declared_as config n")
    case None
    from that have "n \<noteq> ''__proto__''" by auto
    from Project_undeclared(1) [OF assms this None] that show ?thesis by auto
  next
    case (Some d)
    from that have "n \<noteq> ''__proto__''" by auto
    from Project_declared [OF assms this Some] show ?thesis by auto
  qed
  then show "\<exists>x. own (filetypes p) ''xliff'' = Some x" "\<exists>u. own (filetypes p) ''unknown'' = Some u"
    by simp_all
qed

lemma Project_proto:
  assumes "Project nf rt opts (Some config) = Inr p" and "declared_as config ''__proto__'' = None"
  shows "proto (filetypes p) = None"
proof -
  from assms(1) obtain xliff unknown fts where
    a: "add_filetypes nf \<lparr> own = [''xliff'' \<mapsto> xliff, ''unknown'' \<mapsto> unknown], proto = None \<rparr>
       (for_in_order (case config_filetypes config of None \<Rightarrow> [] | Some fs \<Rightarrow> fs)) = Inr fts" and
    b: "add_on_the_fly nf fts
       (for_in_order (case config_paths config of None \<Rightarrow> [] | Some ps \<Rightarrow> ps)) = Inr (filetypes p)"
    by (rule Project_steps)
  from assms(2) have 1: "''__proto__'' \<notin> fst ` set (inline_definitions config)"
    and 2: "''__proto__'' \<notin> fst ` set (for_in_order (case config_filetypes config of None \<Rightarrow> [] | Some fs \<Rightarrow> fs))"
    by (auto simp: declared_as_def map_of_eq_None_iff split: option.splits)
  from add_filetypes_proto [OF a 2] add_on_the_fly_proto [OF b] 1
  show ?thesis by (simp add: inline_definitions_def)
qed

lemmas for_in_order_eval =
  for_in_order_def is_array_index_def array_index_def decimal_value_def digit_def
  char_of_eq_iff

lemma example_project_constructed:
  "Project Inr ''.'' (Some example_options) (Some example_config) = Inr example_project"
  by (simp add: Project_def example_options_def example_config_def example_project_def
      spread_def table_set_def for_in_order_eval)

lemma override_project_constructed:
  "Project Inr ''.'' (Some example_options) (Some override_config) = Inr override_project"
  by (simp add: Project_def example_options_def override_config_def override_project_def
      spread_def table_set_def for_in_order_eval)

lemma quirk_project_constructed:
  "Project Inr ''.'' (Some example_options) (Some quirk_config) = Inr quirk_project"
  by (simp add: Project_def example_options_def quirk_config_def quirk_project_def
      spread_def table_set_def for_in_order_eval)

lemma quirk_order:
  "for_in_order [(''**/*.js'', JStr ''toString''), (''**/*'', JStr ''A''), (''7'', JStr ''B'')] =
     [(''7'', JStr ''B''), (''**/*.js'', JStr ''toString''), (''**/*'', JStr ''A'')]"
  by (simp add: for_in_order_eval)
section \<open>Properties\<close>

subsection \<open>Resources of shape string\<close>

text \<open>
  C1. For a resource of shape \<open>string\<close> whose source \<open>s\<close> and target \<open>t\<close> are text,
  \<^verbatim>\<open>match\<close> returns one finding for each term of the rule that is a substring of \<open>s\<close>
  and not a substring of \<open>t\<close>, in the order of the terms, and no other finding. Each
  finding cites \<open>s\<close> as its source fragment and carries the highlight
  \<^verbatim>\<open>Missing term: <e0>\<close> followed by the term and \<^verbatim>\<open></e0>\<close>; distinct terms have distinct
  findings. For a rule constructed from an explicit list \<open>T\<close> of terms, the terms with a
  finding are the members of \<open>T\<close> that are a substring of \<open>s\<close> and not of \<open>t\<close>, and no
  finding occurs twice.
\<close>

theorem C1_string_findings:
  assumes "getType r = ''string''" and "getSource r = JStr s" and "getTarget r = JStr t"
  shows "\<exists>fs. DNT_match cats rule r path loc = Some fs
          \<and> fs = map (finding rule r path loc s)
                   (filter (\<lambda>x. is_substring x s \<and> \<not> is_substring x t) (dntTerms rule))
          \<and> (\<forall>x. finding rule r path loc s x \<in> set fs
                 \<longleftrightarrow> x \<in> set (dntTerms rule) \<and> is_substring x s \<and> \<not> is_substring x t)
          \<and> (distinct (dntTerms rule) \<longrightarrow> distinct fs)
          \<and> (''terms'' \<in> fst ` set params \<and> get_prop params ''terms'' = JArr (map JStr T)
                \<and> ResourceDNTTerms readFileSync JSON_parse params = Inr rule
              \<longrightarrow> distinct fs
                  \<and> (\<forall>x. finding rule r path loc s x \<in> set fs
                         \<longleftrightarrow> x \<in> set T \<and> is_substring x s \<and> \<not> is_substring x t))"
proof -
  let ?T = "filter (\<lambda>x. is_substring x s \<and> \<not> is_substring x t) (dntTerms rule)"
  let ?fs = "map (finding rule r path loc s) ?T"
  have eq: "DNT_match cats rule r path loc = Some ?fs"
    using assms by (rule DNT_match_string)
  have inj: "inj_on (finding rule r path loc s) A" for A
    by (simp add: inj_on_def finding_inj)
  have mem: "finding rule r path loc s x \<in> set ?fs
        \<longleftrightarrow> x \<in> set (dntTerms rule) \<and> is_substring x s \<and> \<not> is_substring x t" for x
    by (auto simp: finding_inj)
  have dist: "distinct (dntTerms rule) \<longrightarrow> distinct ?fs"
    by (simp add: distinct_map inj)
  have made: "distinct ?fs
      \<and> (\<forall>x. finding rule r path loc s x \<in> set ?fs
             \<longleftrightarrow> x \<in> set T \<and> is_substring x s \<and> \<not> is_substring x t)"
    if h: "''terms'' \<in> fst ` set params \<and> get_prop params ''terms'' = JArr (map JStr T)
           \<and> ResourceDNTTerms readFileSync JSON_parse params = Inr rule"
  proof -
    from h have "distinct (dntTerms rule)"
      using ResourceDNTTerms_distinct by blast
    moreover from h have "set (dntTerms rule) = set T - {[]}"
      using ResourceDNTTerms_explicit_terms by blast
    ultimately show ?thesis
      using dist mem is_substring_Nil by auto
  qed
  show ?thesis using eq mem dist made by blast
qed

text \<open>
  The scenario of the specification: the term \<^verbatim>\<open>OAuth\<close>, the source
  \<^verbatim>\<open>Sign in with OAuth\<close> and the target \<^verbatim>\<open>Connectez-vous\<close> give exactly one finding.
\<close>

theorem C1_string_findings_witness:
  "getType oauth_string = ''string''
   \<and> ResourceDNTTerms example_files example_JSON_parse [(''terms'', JArr [JStr ''OAuth''])] =
       Inr (example_rule [''OAuth''])
   \<and> DNT_match plural_categories (example_rule [''OAuth'']) oauth_string ''a.xliff'' ''fr-FR'' =
       Some [finding (example_rule [''OAuth'']) oauth_string ''a.xliff'' ''fr-FR''
               ''Sign in with OAuth'' ''OAuth'']"
proof -
  have made: "ResourceDNTTerms example_files example_JSON_parse [(''terms'', JArr [JStr ''OAuth''])] =
       Inr (example_rule [''OAuth''])"
    by (simp add: ResourceDNTTerms_def constructor_terms_def get_prop_def string_array_def
        new_Set_def Set_add_def example_rule_def)
  show ?thesis
    using made C1_string_findings [where r = oauth_string and s = "''Sign in with OAuth''"
      and t = "''Connectez-vous''" and cats = plural_categories
      and rule = "example_rule [''OAuth'']" and path = "''a.xliff''" and loc = "''fr-FR''"
      and params = "[(''terms'', JArr [JStr ''OAuth''])]" and T = "[''OAuth'']"
      and readFileSync = example_files and JSON_parse = example_JSON_parse]
    by (simp add: oauth_string_def example_rule_def includes_str_iff [symmetric])
qed

subsection \<open>Resources of shape plural\<close>

text \<open>
  C2. For a resource of shape \<open>plural\<close> whose source and target map plural categories to
  texts, \<^verbatim>\<open>match\<close> returns a finding for a term \<open>x\<close> if and only if \<open>x\<close> is a term of
  the rule, the text of some source category contains \<open>x\<close> and not every text of a target
  category contains \<open>x\<close>. When the terms of the rule are distinct, and so for every rule that
  the constructor has built, there is at most one finding for each term, however many
  target categories lack it. Each finding cites the text of the first source category, in the order of
  enumeration, that contains its term.
\<close>

theorem C2_plural_findings:
  assumes "getType r = ''plural''"
    and "getSource r = JObj (map (\<lambda>(k, s). (k, JStr s)) src)"
    and "getTarget r = JObj (map (\<lambda>(k, s). (k, JStr s)) tgt)"
    and "fst ` set src \<subseteq> set cats" and "fst ` set tgt \<subseteq> set cats"
  shows "\<exists>fs. DNT_match cats rule r path loc = Some fs
          \<and> (\<forall>x. (\<exists>f\<in>set fs. result_highlight f = ''Missing term: <e0>'' @ x @ ''</e0>'')
                 \<longleftrightarrow> x \<in> set (dntTerms rule)
                     \<and> (\<exists>s\<in>set (map snd src). is_substring x s)
                     \<and> \<not> (\<forall>t\<in>set (map snd tgt). is_substring x t))
          \<and> (distinct (dntTerms rule) \<longrightarrow>
               (\<forall>x. length (filter (\<lambda>f. result_highlight f = ''Missing term: <e0>'' @ x @ ''</e0>'') fs) \<le> 1))
          \<and> (ResourceDNTTerms readFileSync JSON_parse params = Inr rule \<longrightarrow>
               (\<forall>x. length (filter (\<lambda>f. result_highlight f = ''Missing term: <e0>'' @ x @ ''</e0>'') fs) \<le> 1))
          \<and> (\<forall>f\<in>set fs. \<exists>x\<in>set (dntTerms rule). \<exists>i<length src.
                 f = finding rule r path loc (snd (src ! i)) x
                 \<and> is_substring x (snd (src ! i))
                 \<and> (\<forall>j<i. \<not> is_substring x (snd (src ! j))))"
proof -
  let ?P = "\<lambda>x. (\<exists>s\<in>set (map snd src). is_substring x s)
                 \<and> \<not> (\<forall>t\<in>set (map snd tgt). is_substring x t)"
  let ?first = "\<lambda>x. the (find (\<lambda>s. is_substring x s) (map snd src))"
  let ?g = "\<lambda>x. finding rule r path loc (?first x) x"
  let ?fs = "map ?g (filter ?P (dntTerms rule))"
  have eq: "DNT_match cats rule r path loc = Some ?fs"
    using assms by (intro DNT_match_plural) (simp_all add: object_entries_def)
  have hl: "result_highlight (?g y) = ''Missing term: <e0>'' @ x @ ''</e0>'' \<longleftrightarrow> y = x" for x y
    by (simp add: highlight_finding)
  have mem: "(\<exists>f\<in>set ?fs. result_highlight f = ''Missing term: <e0>'' @ x @ ''</e0>'')
               \<longleftrightarrow> x \<in> set (dntTerms rule) \<and> ?P x" for x
  proof
    assume "\<exists>f\<in>set ?fs. result_highlight f = ''Missing term: <e0>'' @ x @ ''</e0>''"
    then obtain y where "y \<in> set (filter ?P (dntTerms rule))"
      and "result_highlight (?g y) = ''Missing term: <e0>'' @ x @ ''</e0>''"
      by auto
    then show "x \<in> set (dntTerms rule) \<and> ?P x" using hl by simp
  next
    assume "x \<in> set (dntTerms rule) \<and> ?P x"
    then have "?g x \<in> set ?fs" by simp
    then show "\<exists>f\<in>set ?fs. result_highlight f = ''Missing term: <e0>'' @ x @ ''</e0>''"
      using hl by blast
  qed
  have once: "length (filter (\<lambda>f. result_highlight f = ''Missing term: <e0>'' @ x @ ''</e0>'') ?fs) \<le> 1"
    if "distinct (dntTerms rule)" for x
  proof -
    have "filter (\<lambda>f. result_highlight f = ''Missing term: <e0>'' @ x @ ''</e0>'') ?fs
            = map ?g (filter (\<lambda>y. y = x) (filter ?P (dntTerms rule)))"
      by (simp only: filter_map o_def hl)
    moreover have "distinct (filter ?P (dntTerms rule))" using that by simp
    ultimately show ?thesis
      using filter_eq_distinct_le_1 [of "filter ?P (dntTerms rule)" x] by simp
  qed
  have first: "\<exists>x\<in>set (dntTerms rule). \<exists>i<length src.
                 f = finding rule r path loc (snd (src ! i)) x
                 \<and> is_substring x (snd (src ! i))
                 \<and> (\<forall>j<i. \<not> is_substring x (snd (src ! j)))" if "f \<in> set ?fs" for f
  proof -
    from that obtain x where x: "x \<in> set (dntTerms rule)" "?P x" and f: "f = ?g x" by auto
    from x(2) obtain m where m: "find (\<lambda>s. is_substring x s) (map snd src) = Some m"
      by (cases "find (\<lambda>s. is_substring x s) (map snd src)") (auto simp: find_None_iff)
    from find_first_index [OF m] obtain i where "i < length src" "m = snd (src ! i)"
      "is_substring x (snd (src ! i))" "\<forall>j<i. \<not> is_substring x (snd (src ! j))"
      by auto
    with x(1) f m show ?thesis by auto
  qed
  have made: "length (filter (\<lambda>f. result_highlight f = ''Missing term: <e0>'' @ x @ ''</e0>'') ?fs) \<le> 1"
    if "ResourceDNTTerms readFileSync JSON_parse params = Inr rule" for x
    using that once ResourceDNTTerms_distinct by blast
  show ?thesis using eq mem once made first by blast
qed

text \<open>
  The scenario of the specification: the category \<open>one\<close> of the target lacks the term, and
  the one finding cites the source text \<^verbatim>\<open>1 OAuth token\<close>.
\<close>

theorem C2_plural_findings_witness:
  "getType oauth_plural = ''plural''
   \<and> fst ` set [(''one'', ''1 OAuth token''), (''other'', ''%d OAuth tokens'')] \<subseteq> set plural_categories
   \<and> fst ` set [(''one'', ''1 jeton''), (''other'', ''%d jetons OAuth'')] \<subseteq> set plural_categories
   \<and> ResourceDNTTerms example_files example_JSON_parse [(''terms'', JArr [JStr ''OAuth''])] =
       Inr (example_rule [''OAuth''])
   \<and> DNT_match plural_categories (example_rule [''OAuth'']) oauth_plural ''a.xliff'' ''fr-FR'' =
       Some [finding (example_rule [''OAuth'']) oauth_plural ''a.xliff'' ''fr-FR''
               ''1 OAuth token'' ''OAuth'']"
proof -
  have made: "ResourceDNTTerms example_files example_JSON_parse [(''terms'', JArr [JStr ''OAuth''])] =
       Inr (example_rule [''OAuth''])"
    by (simp add: ResourceDNTTerms_def constructor_terms_def get_prop_def string_array_def
        new_Set_def Set_add_def example_rule_def)
  show ?thesis
    using made C2_plural_findings [where r = oauth_plural
      and src = "[(''one'', ''1 OAuth token''), (''other'', ''%d OAuth tokens'')]"
      and tgt = "[(''one'', ''1 jeton''), (''other'', ''%d jetons OAuth'')]"
      and cats = plural_categories
      and rule = "example_rule [''OAuth'']" and path = "''a.xliff''" and loc = "''fr-FR''"
      and params = "[(''terms'', JArr [JStr ''OAuth''])]"
      and readFileSync = example_files and JSON_parse = example_JSON_parse]
    by (simp add: oauth_plural_def plural_categories_def example_rule_def DNT_match_def
        DNT_matchResource_def object_entries_def DNT_matchPlural_def DNT_matchPlural_step_def
        new_Result_def finding_def missing_term_def)
qed

subsection \<open>Resources of shape array\<close>

text \<open>
  C3. For a resource of shape \<open>array\<close> whose source and target are sequences of texts, the
  findings that \<^verbatim>\<open>match\<close> returns are the concatenation, in the order of the source
  indices, of the findings of the string shape for the source element and the target
  element at each index; where the target has no element at the index, the source element
  is compared with the empty text.
\<close>

theorem C3_array_findings:
  assumes "getType r = ''array''"
    and "getSource r = JArr (map JStr src)" and "getTarget r = JArr (map JStr tgt)"
  shows "DNT_match cats rule r path loc =
     Some (concat (map (\<lambda>i. string_shape_findings cats rule r path loc
                              (src ! i) (if i < length tgt then tgt ! i else ''''))
             [0..<length src]))"
proof -
  have "string_shape_findings cats rule r path loc s t =
          map (new_Result rule r path loc) (DNT_matchString (dntTerms rule) s t)" for s t
    by (simp add: string_shape_findings_def DNT_match_def DNT_matchResource_def new_Result_def
        fun_eq_iff)
  then show ?thesis
    using DNT_match_array [OF assms, of cats rule path loc]
    by (simp add: map_concat o_def target_item_def)
qed

theorem C3_array_findings_witness:
  "getType oauth_array = ''array''
   \<and> DNT_match plural_categories (example_rule [''OAuth'']) oauth_array ''a.xliff'' ''fr-FR'' =
       Some [finding (example_rule [''OAuth'']) oauth_array ''a.xliff'' ''fr-FR''
               ''OAuth here'' ''OAuth'']"
  using C3_array_findings [where r = oauth_array
      and src = "[''Use OAuth'', ''OAuth here'', ''Done'']" and tgt = "[''Utilisez OAuth'']"
      and cats = plural_categories
      and rule = "example_rule [''OAuth'']" and path = "''a.xliff''" and loc = "''fr-FR''"]
  by (simp add: oauth_array_def example_rule_def string_shape_findings_def DNT_match_def
      DNT_matchResource_def DNT_matchString_def DNT_matchString_step_def upt_rec
      new_Result_def finding_def missing_term_def)

subsection \<open>Resources that are not well typed\<close>

text \<open>
  C5. For a resource whose content does not fit its shape (a \<open>string\<close> whose source or
  target is not a text, an \<open>array\<close> whose source or target is not a sequence of texts, a
  \<open>plural\<close> with a key that is no plural category or a value that is no text) and for a
  resource of any other shape, \<^verbatim>\<open>match\<close> returns \<^verbatim>\<open>undefined\<close>: there is no finding, and
  no operation that could raise an error is reached, the result being decided by the
  type checks alone.
\<close>

theorem C5_ill_typed_skipped:
  assumes "\<not> well_typed cats r"
  shows "DNT_match cats rule r path loc = None"
  using assms by (simp add: DNT_match_None_iff)

theorem C5_ill_typed_skipped_witness:
  "\<not> well_typed plural_categories untranslated_string
   \<and> DNT_match plural_categories (example_rule [''OAuth'']) untranslated_string ''a.xliff'' ''fr-FR'' = None
   \<and> \<not> well_typed plural_categories number_in_array
   \<and> DNT_match plural_categories (example_rule [''OAuth'']) number_in_array ''a.xliff'' ''fr-FR'' = None
   \<and> \<not> well_typed plural_categories bad_category
   \<and> DNT_match plural_categories (example_rule [''OAuth'']) bad_category ''a.xliff'' ''fr-FR'' = None
   \<and> \<not> well_typed plural_categories unknown_shape
   \<and> DNT_match plural_categories (example_rule [''OAuth'']) unknown_shape ''a.xliff'' ''fr-FR'' = None"
proof -
  have s: "\<not> well_typed plural_categories untranslated_string"
    by (simp add: well_typed_def untranslated_string_def)
  have a: "\<not> well_typed plural_categories number_in_array"
    by (simp add: well_typed_def number_in_array_def text_sequence_def)
  have p: "\<not> well_typed plural_categories bad_category"
    by (simp add: well_typed_def bad_category_def category_mapping_def object_entries_def
        plural_categories_def)
  have u: "\<not> well_typed plural_categories unknown_shape"
    by (simp add: well_typed_def unknown_shape_def)
  show ?thesis
    using s a p u C5_ill_typed_skipped [OF s] C5_ill_typed_skipped [OF a]
      C5_ill_typed_skipped [OF p] C5_ill_typed_skipped [OF u]
    by simp
qed

text \<open>
  C10. \<^verbatim>\<open>match\<close> tells a rule that did not apply from a rule that found nothing: the
  result is \<^verbatim>\<open>undefined\<close> exactly for the resources that are not well typed, and it is the
  empty list for a well-typed resource from whose target no term of the rule is missing.
\<close>

theorem C10_undefined_versus_empty:
  "(\<not> well_typed cats r \<longrightarrow> DNT_match cats rule r path loc = None)
   \<and> (well_typed cats r \<longrightarrow> DNT_match cats rule r path loc \<noteq> None)
   \<and> (well_typed cats r \<and> (\<forall>x\<in>set (dntTerms rule). \<not> term_missing r x)
        \<longrightarrow> DNT_match cats rule r path loc = Some [])"
  using DNT_match_None_iff [of cats rule r path loc] no_missing_empty [of cats r rule path loc]
  by blast

theorem C10_undefined_versus_empty_witness:
  "\<not> well_typed plural_categories untranslated_string
   \<and> DNT_match plural_categories (example_rule [''OAuth'']) untranslated_string ''a.xliff'' ''fr-FR'' = None
   \<and> well_typed plural_categories translated_string
   \<and> dntTerms (example_rule [''OAuth'']) = [''OAuth'']
   \<and> \<not> term_missing translated_string ''OAuth''
   \<and> DNT_match plural_categories (example_rule [''OAuth'']) translated_string ''a.xliff'' ''fr-FR'' = Some []"
proof -
  have n: "\<not> well_typed plural_categories untranslated_string"
    by (simp add: well_typed_def untranslated_string_def)
  have w: "well_typed plural_categories translated_string"
    by (simp add: well_typed_def translated_string_def)
  have m: "\<forall>x\<in>set (dntTerms (example_rule [''OAuth''])). \<not> term_missing translated_string x"
    by (simp add: example_rule_def term_missing_def translated_string_def text_contains_def
        includes_str_iff [symmetric])
  have t: "dntTerms (example_rule [''OAuth'']) = [''OAuth'']"
    by (simp add: example_rule_def)
  show ?thesis
    using n w m t
      C10_undefined_versus_empty [of plural_categories untranslated_string
        "example_rule [''OAuth'']" "''a.xliff''" "''fr-FR''"]
      C10_undefined_versus_empty [of plural_categories translated_string
        "example_rule [''OAuth'']" "''a.xliff''" "''fr-FR''"]
    by simp
qed

subsection \<open>Construction of the rule\<close>

text \<open>
  C6. A rule is constructed from a terms file when its parameters hold no explicit
  \<^verbatim>\<open>terms\<close> and hold a \<^verbatim>\<open>termsFilePath\<close>. The constructor then returns an error, and no
  rule instance, when the type of the file is \<^verbatim>\<open>json\<close> and the text of the file is not
  JSON, when the type is \<^verbatim>\<open>json\<close> and the parsed content is not an array of strings, and
  when the type is neither \<^verbatim>\<open>json\<close> nor \<^verbatim>\<open>txt\<close>. The file is read by the constructor
  alone: \<^verbatim>\<open>match\<close> takes the constructed instance and has no error among its results.
\<close>

theorem C6_construction_errors:
  assumes "''terms'' \<notin> fst ` set params" and "''termsFilePath'' \<in> fst ` set params"
  shows "(get_prop params ''termsFileType'' = JStr ''json''
            \<and> readFileSync (get_prop params ''termsFilePath'') = Some body
            \<and> JSON_parse body = None
          \<longrightarrow> ResourceDNTTerms readFileSync JSON_parse params = Inl JSON_parse_failed)
       \<and> (get_prop params ''termsFileType'' = JStr ''json''
            \<and> readFileSync (get_prop params ''termsFilePath'') = Some body
            \<and> JSON_parse body = Some content \<and> \<not> text_sequence content
          \<longrightarrow> ResourceDNTTerms readFileSync JSON_parse params = Inl JSON_unexpected_content)
       \<and> (get_prop params ''termsFileType'' \<noteq> JStr ''json''
            \<and> get_prop params ''termsFileType'' \<noteq> JStr ''txt''
          \<longrightarrow> ResourceDNTTerms readFileSync JSON_parse params =
                Inl (Invalid_terms_file_type (get_prop params ''termsFileType'')))"
  using assms string_array_None_iff [of content]
  by (intro conjI impI constructor_error)
     (simp_all add: constructor_terms_def parseTermsFromJsonFile_def)

text \<open>
  The scenario of the specification, a file holding \<^verbatim>\<open>{"foo": 1}\<close> declared as \<^verbatim>\<open>json\<close>,
  with a file of malformed JSON and an unknown type of file.
\<close>

theorem C6_construction_errors_witness:
  \<open>ResourceDNTTerms example_files example_JSON_parse
       [(''termsFilePath'', JStr ''broken.json''), (''termsFileType'', JStr ''json'')] =
     Inl JSON_parse_failed
   \<and> ResourceDNTTerms example_files example_JSON_parse
       [(''termsFilePath'', JStr ''object.json''), (''termsFileType'', JStr ''json'')] =
     Inl JSON_unexpected_content
   \<and> ResourceDNTTerms example_files example_JSON_parse
       [(''termsFilePath'', JStr ''object.json''), (''termsFileType'', JStr ''yaml'')] =
     Inl (Invalid_terms_file_type (JStr ''yaml''))\<close>
proof -
  have 1: \<open>ResourceDNTTerms example_files example_JSON_parse
       [(''termsFilePath'', JStr ''broken.json''), (''termsFileType'', JStr ''json'')] =
     Inl JSON_parse_failed\<close>
    using C6_construction_errors [where readFileSync = example_files
        and JSON_parse = example_JSON_parse
        and params = "[(''termsFilePath'', JStr ''broken.json''), (''termsFileType'', JStr ''json'')]"
        and body = \<open>''["OAuth"''\<close>]
    by (simp add: get_prop_def example_files_def example_JSON_parse_def)
  have 2: \<open>ResourceDNTTerms example_files example_JSON_parse
       [(''termsFilePath'', JStr ''object.json''), (''termsFileType'', JStr ''json'')] =
     Inl JSON_unexpected_content\<close>
    using C6_construction_errors [where readFileSync = example_files
        and JSON_parse = example_JSON_parse
        and params = "[(''termsFilePath'', JStr ''object.json''), (''termsFileType'', JStr ''json'')]"
        and body = \<open>''{"foo": 1}''\<close> and content = "JObj [(''foo'', JNum 1)]"]
    by (simp add: get_prop_def example_files_def example_JSON_parse_def text_sequence_def)
  have 3: \<open>ResourceDNTTerms example_files example_JSON_parse
       [(''termsFilePath'', JStr ''object.json''), (''termsFileType'', JStr ''yaml'')] =
     Inl (Invalid_terms_file_type (JStr ''yaml''))\<close>
    using C6_construction_errors [where readFileSync = example_files
        and JSON_parse = example_JSON_parse
        and params = "[(''termsFilePath'', JStr ''object.json''), (''termsFileType'', JStr ''yaml'')]"]
    by (simp add: get_prop_def)
  from 1 2 3 show ?thesis by simp
qed

subsection \<open>DeclarativeResourceRule\<close>

text \<open>
  C7. \<^verbatim>\<open>matchString\<close>, in both versions, calls \<^verbatim>\<open>checkString\<close> for each pattern in order,
  concatenates the findings returned, drops the falsy ones, and returns \<^verbatim>\<open>undefined\<close>
  when nothing is left and the list that is left otherwise; it never returns the empty
  list.
\<close>

theorem C7_pattern_findings:
  "matchString checkString re src tgt path res =
     (let kept = filter truthy
            (concat (map (\<lambda>r. returned_findings (checkString r src tgt path res)) re))
      in if kept = [] then None else Some kept)
   \<and> matchString checkString re src tgt path res \<noteq> Some []
   \<and> matchString_earlier checkString re loc src tgt path res =
     (let kept = filter truthy
            (concat (map (\<lambda>r. returned_findings (checkString r src tgt path res)) re))
      in if kept = [] then None else Some kept)
   \<and> matchString_earlier checkString re loc src tgt path res \<noteq> Some []"
  by (simp add: matchString_def matchString_earlier_def foldl_concat_js Let_def)

subsection \<open>Repeated calls\<close>

text \<open>
  C9. Let the field \<^verbatim>\<open>_dntTerms\<close> of the instance refer to an array of the heap, as it does
  from the constructor on. Then \<^verbatim>\<open>match\<close> on a resource returns, and a second call on the
  same resource, in the state that the first call has left, returns the same findings:
  the findings of the rule that the instance is. Both calls leave the instance and every
  array that was on the heap before them as they were, the array of the terms among them;
  all they do to the heap is to allocate further arrays, to which alone they push. A call
  of \<^verbatim>\<open>match\<close> on any other resource leaves a state in which the call on the resource
  returns these findings too.
\<close>

theorem C9_match_idempotent:
  assumes "inst_dntTerms (self st) < length (heap st)"
  shows "\<exists>st1 st2.
      h_match cats r path loc st = Some (DNT_match cats (rule_of st) r path loc, st1)
    \<and> h_match cats r path loc st1 = Some (DNT_match cats (rule_of st) r path loc, st2)
    \<and> self st1 = self st \<and> self st2 = self st
    \<and> array_at (inst_dntTerms (self st)) st1 = array_at (inst_dntTerms (self st)) st
    \<and> array_at (inst_dntTerms (self st)) st2 = array_at (inst_dntTerms (self st)) st
    \<and> take (length (heap st)) (heap st1) = heap st
    \<and> take (length (heap st)) (heap st2) = heap st
    \<and> rule_of st1 = rule_of st \<and> rule_of st2 = rule_of st
    \<and> (\<forall>r' path' loc'. \<exists>st' st''.
          h_match cats r' path' loc' st = Some (DNT_match cats (rule_of st) r' path' loc', st')
        \<and> h_match cats r path loc st' = Some (DNT_match cats (rule_of st) r path loc, st''))"
proof -
  have twice: "\<exists>h h'.
        h_match cats r' path' loc' st =
          Some (DNT_match cats (rule_of st) r' path' loc', st\<lparr> heap := heap st @ h \<rparr>)
      \<and> h_match cats r path loc (st\<lparr> heap := heap st @ h \<rparr>) =
          Some (DNT_match cats (rule_of st) r path loc, st\<lparr> heap := heap st @ h @ h' \<rparr>)"
    for r' path' loc'
  proof -
    from h_match_eq [OF assms, of cats r' path' loc'] obtain h where
      1: "h_match cats r' path' loc' st =
          Some (DNT_match cats (rule_of st) r' path' loc', st\<lparr> heap := heap st @ h \<rparr>)" ..
    let ?st1 = "st\<lparr> heap := heap st @ h \<rparr>"
    have w: "inst_dntTerms (self ?st1) < length (heap ?st1)"
      using assms by simp
    from h_match_eq [OF w, of cats r path loc] obtain h' where
      "h_match cats r path loc ?st1 =
          Some (DNT_match cats (rule_of ?st1) r path loc, ?st1\<lparr> heap := heap ?st1 @ h' \<rparr>)" ..
    then have "h_match cats r path loc ?st1 =
          Some (DNT_match cats (rule_of st) r path loc, st\<lparr> heap := heap st @ h @ h' \<rparr>)"
      using rule_of_grown [OF assms, of h] by simp
    with 1 show ?thesis by blast
  qed
  from twice [of r path loc] obtain h h' where
    1: "h_match cats r path loc st =
          Some (DNT_match cats (rule_of st) r path loc, st\<lparr> heap := heap st @ h \<rparr>)"
    and 2: "h_match cats r path loc (st\<lparr> heap := heap st @ h \<rparr>) =
          Some (DNT_match cats (rule_of st) r path loc, st\<lparr> heap := heap st @ h @ h' \<rparr>)"
    by blast
  let ?st1 = "st\<lparr> heap := heap st @ h \<rparr>" and ?st2 = "st\<lparr> heap := heap st @ h @ h' \<rparr>"
  have "self ?st1 = self st" "self ?st2 = self st"
    "take (length (heap st)) (heap ?st1) = heap st"
    "take (length (heap st)) (heap ?st2) = heap st"
    by simp_all
  moreover have "array_at (inst_dntTerms (self st)) ?st1 = array_at (inst_dntTerms (self st)) st"
    "array_at (inst_dntTerms (self st)) ?st2 = array_at (inst_dntTerms (self st)) st"
    using assms by (simp_all add: array_at_def nth_append)
  moreover have "rule_of ?st1 = rule_of st" "rule_of ?st2 = rule_of st"
    using rule_of_grown [OF assms, of h] rule_of_grown [OF assms, of "h @ h'"] by simp_all
  moreover have "\<forall>r' path' loc'. \<exists>st' st''.
          h_match cats r' path' loc' st = Some (DNT_match cats (rule_of st) r' path' loc', st')
        \<and> h_match cats r path loc st' = Some (DNT_match cats (rule_of st) r path loc, st'')"
    using twice by blast
  ultimately show ?thesis
    using 1 2 by blast
qed

text \<open>
  The instance that the constructor builds for the terms \<^verbatim>\<open>["OAuth"]\<close>, and two calls on the
  resource whose target lacks the term.
\<close>

theorem C9_match_idempotent_witness:
  "h_ResourceDNTTerms example_files example_JSON_parse [(''terms'', JArr [JStr ''OAuth''])] [] =
     Inr example_state
   \<and> inst_dntTerms (self example_state) < length (heap example_state)
   \<and> (\<exists>st1 st2.
        h_match plural_categories oauth_string ''a.xliff'' ''fr-FR'' example_state =
          Some (Some [finding (example_rule [''OAuth'']) oauth_string ''a.xliff'' ''fr-FR''
                        ''Sign in with OAuth'' ''OAuth''], st1)
      \<and> h_match plural_categories oauth_string ''a.xliff'' ''fr-FR'' st1 =
          Some (Some [finding (example_rule [''OAuth'']) oauth_string ''a.xliff'' ''fr-FR''
                        ''Sign in with OAuth'' ''OAuth''], st2)
      \<and> array_at 1 st1 = [Str ''OAuth''] \<and> array_at 1 st2 = [Str ''OAuth''])"
proof -
  have w: "inst_dntTerms (self example_state) < length (heap example_state)"
    by (simp add: example_state_def)
  from C9_match_idempotent [OF w, of plural_categories oauth_string "''a.xliff''" "''fr-FR''"]
  obtain st1 st2 where
    1: "h_match plural_categories oauth_string ''a.xliff'' ''fr-FR'' example_state =
       Some (DNT_match plural_categories (rule_of example_state) oauth_string ''a.xliff'' ''fr-FR'', st1)"
    and 2: "h_match plural_categories oauth_string ''a.xliff'' ''fr-FR'' st1 =
       Some (DNT_match plural_categories (rule_of example_state) oauth_string ''a.xliff'' ''fr-FR'', st2)"
    and s: "self st1 = self example_state" "self st2 = self example_state"
    and t: "take (length (heap example_state)) (heap st1) = heap example_state"
      "take (length (heap example_state)) (heap st2) = heap example_state"
    by blast
  have a: "array_at 1 st' = [Str ''OAuth'']"
    if "take (length (heap example_state)) (heap st') = heap example_state" for st'
    using array_at_take [OF that, of 1] by (simp add: example_state_def array_at_def)
  from 1 2 a [OF t(1)] a [OF t(2)] w example_state_constructed show ?thesis
    by (simp add: example_state_rule example_state_match)
qed

subsection \<open>Resolution of file types\<close>

text \<open>
  C4, as \<^verbatim>\<open>getFileTypeForPath\<close> has it. Let no glob of the path mapping be an array index.
  Then the entries are visited in the order of their declaration, and the result is
  decided by the first entry whose glob matches the normalized path, whatever the entries
  after it are: it is the file type registered under the name that this entry is bound
  to, if there is one, and it is the entry \<open>unknown\<close> of the table of file types if none
  is registered under the name and the name is not one that the table inherits from its
  prototype. The entry \<open>unknown\<close> of the table is the result also when no glob matches.
  In a project that the constructor has built, the table has an entry \<open>unknown\<close>, and it
  is the built-in file type unless the configuration declares a file type named
  \<open>unknown\<close>; and the prototype of the table is \<^verbatim>\<open>Object.prototype\<close> unless the
  configuration declares a file type named \<^verbatim>\<open>__proto__\<close>, so that the names inherited are
  those of the properties of \<^verbatim>\<open>Object.prototype\<close>.
\<close>

theorem C4_first_match:
  assumes "\<forall>entry\<in>set (mapping_entries p). array_index (fst entry) = None"
  shows
   "(\<forall>i<length (mapping_entries p).
       isMatch (path_normalize pathName) (fst (mapping_entries p ! i))
       \<and> (\<forall>j<i. \<not> isMatch (path_normalize pathName) (fst (mapping_entries p ! j)))
       \<longrightarrow> (\<forall>ft. own (filetypes p) (bound_name (mapping_entries p ! i)) = Some ft
                 \<longrightarrow> getFileTypeForPath FileType_member path_normalize isMatch p pathName =
                       File_type ft)
           \<and> (own (filetypes p) (bound_name (mapping_entries p ! i)) = None
                \<and> \<not> inherits FileType_member (filetypes p) (bound_name (mapping_entries p ! i))
               \<longrightarrow> getFileTypeForPath FileType_member path_normalize isMatch p pathName =
                     table_get FileType_member (filetypes p) ''unknown''))
    \<and> ((\<forall>entry\<in>set (mapping_entries p). \<not> isMatch (path_normalize pathName) (fst entry))
        \<longrightarrow> getFileTypeForPath FileType_member path_normalize isMatch p pathName =
              table_get FileType_member (filetypes p) ''unknown'')
    \<and> (Project new_FileType rt opts (Some config) = Inr p
        \<longrightarrow> (\<exists>u. table_get FileType_member (filetypes p) ''unknown'' = File_type u
                 \<and> own (filetypes p) ''unknown'' = Some u
                 \<and> (declared_as config ''unknown'' = None
                      \<longrightarrow> new_FileType unknownFileTypeDefinition = Inr u))
            \<and> (declared_as config ''__proto__'' = None \<longrightarrow> proto (filetypes p) = None))"
proof -
  let ?ms = "mapping_entries p"
  let ?P = "path_normalize pathName"
  let ?get = "getFileTypeForPath FileType_member path_normalize isMatch p pathName"
  have order: "for_in_order ?ms = ?ms"
    using assms by (rule for_in_order_no_index)
  then have get: "?get = scan_mappings FileType_member isMatch (filetypes p) ?P ?ms"
    by (simp add: getFileTypeForPath_def mapping_entries_def)
  have first: "?get = (case table_get FileType_member (filetypes p) (bound_name (?ms ! i)) of
              Not_found \<Rightarrow> table_get FileType_member (filetypes p) ''unknown''
            | value \<Rightarrow> value)"
    if "i < length ?ms" and "isMatch ?P (fst (?ms ! i))"
      and "\<forall>j<i. \<not> isMatch ?P (fst (?ms ! j))" for i
    using scan_mappings_first [of i ?ms isMatch ?P FileType_member "filetypes p"] that get by simp
  have 1: "?get = File_type ft"
    if "i < length ?ms" and "isMatch ?P (fst (?ms ! i)) \<and> (\<forall>j<i. \<not> isMatch ?P (fst (?ms ! j)))"
      and "own (filetypes p) (bound_name (?ms ! i)) = Some ft" for i ft
    using first [of i] that table_get_own [OF that(3), of FileType_member] by simp
  have 2: "?get = table_get FileType_member (filetypes p) ''unknown''"
    if "i < length ?ms" and "isMatch ?P (fst (?ms ! i)) \<and> (\<forall>j<i. \<not> isMatch ?P (fst (?ms ! j)))"
      and "own (filetypes p) (bound_name (?ms ! i)) = None
           \<and> \<not> inherits FileType_member (filetypes p) (bound_name (?ms ! i))" for i
    using first [of i] that table_get_Not_found [of "filetypes p" "bound_name (?ms ! i)" FileType_member]
    by simp
  have 3: "?get = table_get FileType_member (filetypes p) ''unknown''"
    if "\<forall>entry\<in>set ?ms. \<not> isMatch ?P (fst entry)"
    using scan_mappings_none [of ?ms isMatch ?P FileType_member "filetypes p"] that get by simp
  have 4: "\<exists>u. table_get FileType_member (filetypes p) ''unknown'' = File_type u
                 \<and> own (filetypes p) ''unknown'' = Some u
                 \<and> (declared_as config ''unknown'' = None
                      \<longrightarrow> new_FileType unknownFileTypeDefinition = Inr u)"
    if P: "Project new_FileType rt opts (Some config) = Inr p"
  proof -
    from Project_builtin_names(2) [OF P] obtain u where u: "own (filetypes p) ''unknown'' = Some u" ..
    have "new_FileType unknownFileTypeDefinition = Inr u" if "declared_as config ''unknown'' = None"
      using Project_undeclared [OF P _ that] u by (cases "new_FileType unknownFileTypeDefinition") auto
    with u table_get_own [OF u, of FileType_member] show ?thesis by simp
  qed
  have 5: "proto (filetypes p) = None"
    if "Project new_FileType rt opts (Some config) = Inr p"
      and "declared_as config ''__proto__'' = None"
    using that by (rule Project_proto)
  show ?thesis using 1 2 3 4 5 by blast
qed

text \<open>
  The mapping \<^verbatim>\<open>src/**\<close> to \<open>A\<close>, \<^verbatim>\<open>**/*.js\<close> to \<open>B\<close>, \<^verbatim>\<open>**/*.md\<close> to \<open>markdown\<close>: the path
  \<^verbatim>\<open>src/x.js\<close> matches the first two globs and resolves to \<open>A\<close>; \<^verbatim>\<open>lib/y.js\<close> resolves to
  \<open>B\<close>; \<^verbatim>\<open>docs/readme.md\<close> is bound to a name that is not registered, and \<^verbatim>\<open>Makefile\<close>
  matches no glob: both resolve to the built-in \<open>unknown\<close>.
\<close>

theorem C4_first_match_witness:
  "Project Inr ''.'' (Some example_options) (Some example_config) = Inr example_project
   \<and> declared_as example_config ''unknown'' = None
   \<and> list_all (\<lambda>entry. array_index (fst entry) = None) (mapping_entries example_project)
   \<and> getFileTypeForPath example_member (\<lambda>p. p) example_isMatch example_project ''src/x.js'' =
     File_type [''name'' \<mapsto> JStr ''A'', ''ruleset'' \<mapsto> JArr [JStr ''resource-check-all'']]
   \<and> getFileTypeForPath example_member (\<lambda>p. p) example_isMatch example_project ''lib/y.js'' =
     File_type [''name'' \<mapsto> JStr ''B'']
   \<and> getFileTypeForPath example_member (\<lambda>p. p) example_isMatch example_project ''docs/readme.md'' =
     File_type unknownFileTypeDefinition
   \<and> getFileTypeForPath example_member (\<lambda>p. p) example_isMatch example_project ''Makefile'' =
     File_type unknownFileTypeDefinition"
proof -
  have m: "mapping_entries example_project =
      [(''src/**'', JStr ''A''), (''**/*.js'', JStr ''B''), (''**/*.md'', JStr ''markdown'')]"
    by (simp add: mapping_entries_def example_project_def)
  have n: "\<forall>entry\<in>set (mapping_entries example_project). array_index (fst entry) = None"
    by (simp add: m array_index_def decimal_value_def digit_def char_of_eq_iff)
  note c = C4_first_match [OF n, where isMatch = example_isMatch and FileType_member = example_member
      and path_normalize = "\<lambda>p. p" and new_FileType = Inr and rt = "''.''"
      and opts = "Some example_options" and config = example_config]
  have d: "declared_as example_config ''unknown'' = None"
    by (simp add: declared_as_def inline_definitions_def example_config_def for_in_order_eval)
  have fa: "own (filetypes example_project) ''A'' =
      Some [''name'' \<mapsto> JStr ''A'', ''ruleset'' \<mapsto> JArr [JStr ''resource-check-all'']]"
    and fb: "own (filetypes example_project) ''B'' = Some [''name'' \<mapsto> JStr ''B'']"
    and fm: "own (filetypes example_project) ''markdown'' = None"
    and im: "\<not> inherits example_member (filetypes example_project) ''markdown''"
    and fu: "own (filetypes example_project) ''unknown'' = Some unknownFileTypeDefinition"
    by (simp_all add: example_project_def inherits_def Object_prototype_members_def)
  have gu: "table_get example_member (filetypes example_project) ''unknown'' =
      File_type unknownFileTypeDefinition"
    using fu by (rule table_get_own)
  have 1: "getFileTypeForPath example_member (\<lambda>p. p) example_isMatch example_project ''src/x.js'' =
     File_type [''name'' \<mapsto> JStr ''A'', ''ruleset'' \<mapsto> JArr [JStr ''resource-check-all'']]"
    using c [where pathName = "''src/x.js''", THEN conjunct1, THEN spec, of 0]
    by (simp add: m example_isMatch_def bound_name_def fa)
  have 2: "getFileTypeForPath example_member (\<lambda>p. p) example_isMatch example_project ''lib/y.js'' =
     File_type [''name'' \<mapsto> JStr ''B'']"
    using c [where pathName = "''lib/y.js''", THEN conjunct1, THEN spec, of 1]
    by (simp add: m example_isMatch_def bound_name_def fb)
  have 3: "getFileTypeForPath example_member (\<lambda>p. p) example_isMatch example_project ''docs/readme.md'' =
     File_type unknownFileTypeDefinition"
    using c [where pathName = "''docs/readme.md''", THEN conjunct1, THEN spec, of 2]
    by (auto simp: m example_isMatch_def bound_name_def fm im gu less_2_cases_iff)
  have 4: "getFileTypeForPath example_member (\<lambda>p. p) example_isMatch example_project ''Makefile'' =
     File_type unknownFileTypeDefinition"
    using c [where pathName = "''Makefile''", THEN conjunct2, THEN conjunct1]
    by (simp add: m example_isMatch_def gu)
  from 1 2 3 4 d n example_project_constructed show ?thesis by (simp add: list_all_iff)
qed

text \<open>
  Where the result is not the built-in file type \<open>unknown\<close>, or not that of the first
  matching entry declared. In the project of a configuration that declares a file type
  named \<open>unknown\<close>, a path that matches no glob resolves to the declared file type, which
  has a rule set. In the project of the mapping \<^verbatim>\<open>**/*.js\<close> to \<open>toString\<close>, \<^verbatim>\<open>**/*\<close> to \<open>A\<close>,
  \<^verbatim>\<open>7\<close> to \<open>B\<close>, the path \<^verbatim>\<open>lib/y.js\<close> is bound to the name \<open>toString\<close>, under which no
  file type is registered, and resolves to the value that the table inherits under that
  name; and the path \<^verbatim>\<open>7\<close> resolves to \<open>B\<close>, although the entry for \<^verbatim>\<open>**/*\<close> is declared
  before the entry for \<^verbatim>\<open>7\<close> and matches the path.
\<close>

theorem C4_first_match_counterexample:
  "Project Inr ''.'' (Some example_options) (Some override_config) = Inr override_project
   \<and> getFileTypeForPath example_member (\<lambda>p. p) example_isMatch override_project ''Makefile'' =
       File_type [''name'' \<mapsto> JStr ''unknown'', ''ruleset'' \<mapsto> JArr [JStr ''resource-check-all'']]
   \<and> unknownFileTypeDefinition ''ruleset'' = None
   \<and> Project Inr ''.'' (Some example_options) (Some quirk_config) = Inr quirk_project
   \<and> example_isMatch ''lib/y.js'' ''**/*.js''
   \<and> own (filetypes quirk_project) ''toString'' = None
   \<and> getFileTypeForPath example_member (\<lambda>p. p) example_isMatch quirk_project ''lib/y.js'' = Inherited
   \<and> mapping_entries quirk_project ! 1 = (''**/*'', JStr ''A'')
   \<and> \<not> example_isMatch ''7'' (fst (mapping_entries quirk_project ! 0))
   \<and> example_isMatch ''7'' (fst (mapping_entries quirk_project ! 1))
   \<and> getFileTypeForPath example_member (\<lambda>p. p) example_isMatch quirk_project ''7'' =
       File_type [''name'' \<mapsto> JStr ''B'']"
proof -
  have o: "getFileTypeForPath example_member (\<lambda>p. p) example_isMatch override_project ''Makefile'' =
       File_type [''name'' \<mapsto> JStr ''unknown'', ''ruleset'' \<mapsto> JArr [JStr ''resource-check-all'']]"
    by (simp add: getFileTypeForPath_def override_project_def table_get_def for_in_order_def)
  have u: "unknownFileTypeDefinition ''ruleset'' = None"
    by (simp add: unknownFileTypeDefinition_def)
  have m: "mapping_entries quirk_project =
      [(''**/*.js'', JStr ''toString''), (''**/*'', JStr ''A''), (''7'', JStr ''B'')]"
    by (simp add: mapping_entries_def quirk_project_def)
  have t: "getFileTypeForPath example_member (\<lambda>p. p) example_isMatch quirk_project ''lib/y.js'' =
      Inherited"
    by (simp add: getFileTypeForPath_def quirk_project_def quirk_order example_isMatch_def
        table_get_def Object_prototype_members_def)
  have s: "getFileTypeForPath example_member (\<lambda>p. p) example_isMatch quirk_project ''7'' =
       File_type [''name'' \<mapsto> JStr ''B'']"
    by (simp add: getFileTypeForPath_def quirk_project_def quirk_order example_isMatch_def
        table_get_def)
  have w: "own (filetypes quirk_project) ''toString'' = None"
    by (simp add: quirk_project_def)
  from o u m t s w override_project_constructed quirk_project_constructed show ?thesis
    by (simp add: example_isMatch_def)
qed

subsection \<open>Built-in file types\<close>

text \<open>
  C8, as the constructor has it. The table of file types of a constructed project has
  entries under the names \<open>xliff\<close> and \<open>unknown\<close>. Under every name other than
  \<^verbatim>\<open>__proto__\<close> that the configuration declares, the entry is the file type constructed
  from the declared definition, so a declaration under the name \<open>xliff\<close> or \<open>unknown\<close>
  replaces the built-in file type. When the configuration does not declare the name, the
  entry \<open>xliff\<close> is the file type constructed from the built-in definition, whose rule
  set is \<^verbatim>\<open>resource-check-all\<close>, and the entry \<open>unknown\<close> is the one constructed from the
  built-in definition, which has no rule set. Under a name other than \<^verbatim>\<open>__proto__\<close> that
  is neither \<open>xliff\<close> nor \<open>unknown\<close> nor declared, the table has no entry.
\<close>

theorem C8_builtin_file_types:
  assumes "Project new_FileType rt opts (Some config) = Inr p"
  shows "(\<exists>x. own (filetypes p) ''xliff'' = Some x)
       \<and> (\<exists>u. own (filetypes p) ''unknown'' = Some u)
       \<and> (\<forall>n d. n \<noteq> ''__proto__'' \<and> declared_as config n = Some d
             \<longrightarrow> (\<exists>ft. new_FileType (declared_options n d) = Inr ft
                       \<and> own (filetypes p) n = Some ft))
       \<and> (declared_as config ''xliff'' = None
            \<longrightarrow> (\<exists>ft. new_FileType xliffFileTypeDefinition = Inr ft
                      \<and> own (filetypes p) ''xliff'' = Some ft))
       \<and> (declared_as config ''unknown'' = None
            \<longrightarrow> (\<exists>ft. new_FileType unknownFileTypeDefinition = Inr ft
                      \<and> own (filetypes p) ''unknown'' = Some ft))
       \<and> (\<forall>n. n \<noteq> ''__proto__'' \<and> n \<noteq> ''xliff'' \<and> n \<noteq> ''unknown'' \<and> declared_as config n = None
             \<longrightarrow> own (filetypes p) n = None)
       \<and> xliffFileTypeDefinition ''ruleset'' = Some (JArr [JStr ''resource-check-all''])
       \<and> unknownFileTypeDefinition ''ruleset'' = None"
proof -
  have r: "xliffFileTypeDefinition ''ruleset'' = Some (JArr [JStr ''resource-check-all''])"
    "unknownFileTypeDefinition ''ruleset'' = None"
    by (simp_all add: xliffFileTypeDefinition_def unknownFileTypeDefinition_def)
  have d: "\<exists>ft. new_FileType (declared_options n d) = Inr ft \<and> own (filetypes p) n = Some ft"
    if "n \<noteq> ''__proto__'' \<and> declared_as config n = Some d" for n d
    using Project_declared [OF assms, of n d] that by simp
  have x: "\<exists>ft. new_FileType xliffFileTypeDefinition = Inr ft \<and> own (filetypes p) ''xliff'' = Some ft"
    if "declared_as config ''xliff'' = None"
    using Project_undeclared [OF assms _ that]
    by (cases "new_FileType xliffFileTypeDefinition") auto
  have u: "\<exists>ft. new_FileType unknownFileTypeDefinition = Inr ft \<and> own (filetypes p) ''unknown'' = Some ft"
    if "declared_as config ''unknown'' = None"
    using Project_undeclared [OF assms _ that]
    by (cases "new_FileType unknownFileTypeDefinition") auto
  have e: "own (filetypes p) n = None"
    if "n \<noteq> ''__proto__'' \<and> n \<noteq> ''xliff'' \<and> n \<noteq> ''unknown'' \<and> declared_as config n = None" for n
    using Project_undeclared(1) [OF assms, of n] that by simp
  show ?thesis
    using Project_builtin_names [OF assms] r d x u e by blast
qed

text \<open>
  The project of a configuration that declares \<open>A\<close> and \<open>B\<close> keeps both built-in file
  types and has no entry \<open>markdown\<close>; the project of a configuration that declares
  \<open>unknown\<close> has the declared file type under that name.
\<close>

theorem C8_builtin_file_types_witness:
  "Project Inr ''.'' (Some example_options) (Some example_config) = Inr example_project
   \<and> declared_as example_config ''A'' = Some (JObj [(''ruleset'', JArr [JStr ''resource-check-all''])])
   \<and> own (filetypes example_project) ''A'' =
       Some (declared_options ''A'' (JObj [(''ruleset'', JArr [JStr ''resource-check-all''])]))
   \<and> declared_as example_config ''xliff'' = None
   \<and> own (filetypes example_project) ''xliff'' = Some xliffFileTypeDefinition
   \<and> declared_as example_config ''unknown'' = None
   \<and> own (filetypes example_project) ''unknown'' = Some unknownFileTypeDefinition
   \<and> declared_as example_config ''markdown'' = None
   \<and> own (filetypes example_project) ''markdown'' = None
   \<and> Project Inr ''.'' (Some example_options) (Some override_config) = Inr override_project
   \<and> declared_as override_config ''unknown'' =
       Some (JObj [(''ruleset'', JArr [JStr ''resource-check-all''])])
   \<and> own (filetypes override_project) ''unknown'' =
       Some (declared_options ''unknown'' (JObj [(''ruleset'', JArr [JStr ''resource-check-all''])]))"
proof -
  have da: "declared_as example_config ''A'' = Some (JObj [(''ruleset'', JArr [JStr ''resource-check-all''])])"
    and dx: "declared_as example_config ''xliff'' = None"
    and du: "declared_as example_config ''unknown'' = None"
    and dm: "declared_as example_config ''markdown'' = None"
    by (simp_all add: declared_as_def inline_definitions_def example_config_def for_in_order_eval)
  have dou: "declared_as override_config ''unknown'' =
       Some (JObj [(''ruleset'', JArr [JStr ''resource-check-all''])])"
    by (simp add: declared_as_def inline_definitions_def override_config_def for_in_order_eval)
  note e = C8_builtin_file_types [OF example_project_constructed]
  note o = C8_builtin_file_types [OF override_project_constructed]
  have a: "own (filetypes example_project) ''A'' =
       Some (declared_options ''A'' (JObj [(''ruleset'', JArr [JStr ''resource-check-all''])]))"
    using e [THEN conjunct2, THEN conjunct2, THEN conjunct1, THEN spec, THEN spec,
        of "''A''" "JObj [(''ruleset'', JArr [JStr ''resource-check-all''])]"] da
    by simp
  have x: "own (filetypes example_project) ''xliff'' = Some xliffFileTypeDefinition"
    and u: "own (filetypes example_project) ''unknown'' = Some unknownFileTypeDefinition"
    and m: "own (filetypes example_project) ''markdown'' = None"
    using e dx du dm by auto
  have ou: "own (filetypes override_project) ''unknown'' =
       Some (declared_options ''unknown'' (JObj [(''ruleset'', JArr [JStr ''resource-check-all''])]))"
    using o [THEN conjunct2, THEN conjunct2, THEN conjunct1, THEN spec, THEN spec,
        of "''unknown''" "JObj [(''ruleset'', JArr [JStr ''resource-check-all''])]"] dou
    by simp
  from da dx du dm dou a x u m ou example_project_constructed override_project_constructed
  show ?thesis by simp
qed

text \<open>
  A configuration that declares a file type named \<open>unknown\<close> is accepted, and the entry
  \<open>unknown\<close> of the project is then the declared file type, with a rule set, and not the
  built-in one: the built-in file types can be replaced.
\<close>

theorem C8_builtin_replaced_counterexample:
  "Project Inr ''.'' (Some example_options) (Some override_config) = Inr override_project
   \<and> map_option (\<lambda>ft. ft ''ruleset'') (own (filetypes override_project) ''unknown'') =
       Some (Some (JArr [JStr ''resource-check-all'']))
   \<and> unknownFileTypeDefinition ''ruleset'' = None
   \<and> own (filetypes override_project) ''unknown'' \<noteq> Some unknownFileTypeDefinition"
proof -
  have r: "map_option (\<lambda>ft. ft ''ruleset'') (own (filetypes override_project) ''unknown'') =
       Some (Some (JArr [JStr ''resource-check-all'']))"
    by (simp add: override_project_def)
  have u: "unknownFileTypeDefinition ''ruleset'' = None"
    by (simp add: unknownFileTypeDefinition_def)
  have "own (filetypes override_project) ''unknown'' \<noteq> Some unknownFileTypeDefinition"
  proof
    assume "own (filetypes override_project) ''unknown'' = Some unknownFileTypeDefinition"
    with r have "unknownFileTypeDefinition ''ruleset'' = Some (JArr [JStr ''resource-check-all''])"
      by simp
    with u show False by simp
  qed
  with r u override_project_constructed show ?thesis by simp
qed

end
